theory Spec2Isabelle
  imports Main "HOL-Library.Char_ord" "HOL-Library.List_Lexorder" "HOL-Library.Multiset"
begin

chapter \<open>Surodeals: content moderation, ad lifecycle, rate limiting and filter synthesis\<close>

text \<open>
  A shallow embedding of the moderation and lifecycle logic of the Surodeals classifieds
  backend. JavaScript strings are modelled as \<^typ>\<open>string\<close> (one \<^typ>\<open>char\<close> per
  UTF-16 code unit, for the code units up to 255), arrays as lists, module-level mutable state and
  database tables as values that are passed in and returned, rejected promises and thrown
  exceptions as the left summand of a sum type, nullable columns as \<^typ>\<open>'a option\<close>.
\<close>

section \<open>Exceptions and strings\<close>

text \<open>What the modelled code can throw: a failing file or database operation, a
  SyntaxError (of \<open>JSON.parse\<close> or of the \<open>RegExp\<close> constructor) and a TypeError.\<close>

datatype exn = IOError | SyntaxError | TypeError

text \<open>
  \<open>String.prototype.toLowerCase\<close> on the code units up to 255. The upper-case letters
  among them are \<open>A-Z\<close> (65 to 90) and the letters from 192 to 222 except the
  multiplication sign (215); their lower-case forms lie 32 higher, and no other code unit
  changes.
\<close>

definition lower_char :: "char \<Rightarrow> char" where
  "lower_char c = (let n = (of_char c :: nat) in
     if (65 \<le> n \<and> n \<le> 90) \<or> (192 \<le> n \<and> n \<le> 222 \<and> n \<noteq> 215) then char_of (n + 32) else c)"

text \<open>
  \<open>String.prototype.toUpperCase\<close> on ASCII text: the letters \<open>a-z\<close> (97 to 122) lie 32
  lower. The source applies it to the keywords of its fixed lists only, which are ASCII.
\<close>

definition upper_char :: "char \<Rightarrow> char" where
  "upper_char c = (let n = (of_char c :: nat) in if 97 \<le> n \<and> n \<le> 122 then char_of (n - 32) else c)"

definition toLowerCase :: "string \<Rightarrow> string" where
  "toLowerCase s = map lower_char s"

definition toUpperCase :: "string \<Rightarrow> string" where
  "toUpperCase s = map upper_char s"

text \<open>\<open>Array.prototype.join\<close>.\<close>

fun join :: "string \<Rightarrow> string list \<Rightarrow> string" where
  "join sep [] = []"
| "join sep [x] = x"
| "join sep (x # y # ys) = x @ sep @ join sep (y # ys)"

section \<open>Blacklist filter (module \<open>blacklist\<close>)\<close>

subsection \<open>The JavaScript runtime\<close>

text \<open>
  \<open>checkAdContent\<close> relies on three services of the JavaScript runtime that are not part of
  the repository. They are parameters of the model:
  \<^item> \<open>js_toLowerCase\<close> is \<open>String.prototype.toLowerCase\<close> (the Unicode case mapping);
  \<^item> \<open>js_canonicalize\<close> is the canonical form under which the flag \<open>i\<close> compares a
    pattern character with an input character;
  \<^item> \<open>js_other_regexp pattern content\<close> is the outcome of
    \<open>new RegExp(pattern, 'i').test(content)\<close> for a pattern outside the fragment of the
    pattern language that is modelled below (groups, character classes, braces, escapes
    other than the word boundary).
  Nothing is assumed about them, so that what is proved holds for every runtime.
\<close>

record js_runtime =
  js_toLowerCase :: "string \<Rightarrow> string"
  js_canonicalize :: "char \<Rightarrow> char"
  js_other_regexp :: "string \<Rightarrow> string \<Rightarrow> exn + bool"

text \<open>
  The runtime on which the examples are evaluated works on the code units up to 255. The
  canonical form of a code unit under the flag \<open>i\<close> (without the flag \<open>u\<close>) is its
  upper-case form, when that is a single code unit: for \<open>a-z\<close> (97 to 122) and the letters
  from 224 to 254 except the division sign (247) it lies 32 lower. The sharp s (223),
  whose upper-case form has two code units, is its own canonical form. The upper-case
  forms of the micro sign (181) and of y with diaeresis (255) lie above 255 and are the
  canonical form of no other code unit up to 255, so here these two stand for themselves.
\<close>

definition canonical_char :: "char \<Rightarrow> char" where
  "canonical_char c = (let n = (of_char c :: nat) in
     if (97 \<le> n \<and> n \<le> 122) \<or> (224 \<le> n \<and> n \<le> 254 \<and> n \<noteq> 247) then char_of (n - 32) else c)"

text \<open>
  The third component of the runtime of the examples is a stand-in: the examples use only
  patterns of the modelled fragment, on which it is never consulted.
\<close>

definition latin1_runtime :: js_runtime where
  "latin1_runtime =
     \<lparr>js_toLowerCase = toLowerCase, js_canonicalize = canonical_char,
      js_other_regexp = (\<lambda>pattern content. Inl SyntaxError)\<rparr>"

subsection \<open>Regular expressions: syntax\<close>

text \<open>
  The pattern language covered: alternatives separated by \<^verbatim>\<open>|\<close>, each a sequence of
  assertions (\<^verbatim>\<open>\b\<close>, \<^verbatim>\<open>^\<close>, \<^verbatim>\<open>$\<close>) and of atoms (a literal character or
  \<^verbatim>\<open>.\<close>) with an optional quantifier \<^verbatim>\<open>?\<close>, \<^verbatim>\<open>*\<close> or \<^verbatim>\<open>+\<close>. A quantifier may be
  followed by \<^verbatim>\<open>?\<close>, which makes it lazy; laziness changes which match is found first,
  not whether there is one, so \<open>test\<close> does not depend on it.
\<close>

datatype char_class =
    Ordinary | Bar | Backslash | Caret | Dollar | Dot | StarSign | PlusSign | QuestionMark | Bracket

definition classify :: "char \<Rightarrow> char_class" where
  "classify c = (let n = (of_char c :: nat) in
     if n = 124 then Bar
     else if n = 92 then Backslash
     else if n = 94 then Caret
     else if n = 36 then Dollar
     else if n = 46 then Dot
     else if n = 42 then StarSign
     else if n = 43 then PlusSign
     else if n = 63 then QuestionMark
     else if n \<in> set [40, 41, 91, 93, 123, 125] then Bracket
     else Ordinary)"

datatype quantifier = Once | ZeroOrOne | ZeroOrMore | OneOrMore

datatype atom = Lit char | AnyChar

datatype assertion = WordBoundary | InputStart | InputEnd

datatype regex_term = Assert assertion | Match atom quantifier

text \<open>
  The outcome of parsing: the alternatives, a SyntaxError, or a pattern outside the
  fragment.
\<close>

datatype parsed = Pattern "regex_term list list" | Malformed | OutsideFragment

text \<open>
  What precedes the current position: nothing that can be quantified (the start of an
  alternative or an assertion), an atom without quantifier, a quantified atom, or a
  quantified atom already marked lazy.
\<close>

datatype preceding = NoAtom | FreshAtom | Quantified | LazyQuantified

definition quantifier_of :: "char_class \<Rightarrow> quantifier" where
  "quantifier_of k = (if k = StarSign then ZeroOrMore else if k = PlusSign then OneOrMore else ZeroOrOne)"

text \<open>
  The parser reads the pattern from left to right; \<open>cur\<close> holds the terms of the current
  alternative and \<open>fin\<close> the finished alternatives, both in reverse. A quantifier with
  nothing to repeat is a SyntaxError, as is a backslash at the end of the pattern.
\<close>

fun parse_pattern :: "string \<Rightarrow> preceding \<Rightarrow> regex_term list \<Rightarrow> regex_term list list \<Rightarrow> parsed" where
  "parse_pattern [] prec cur fin = Pattern (rev (rev cur # fin))"
| "parse_pattern (c # cs) prec cur fin =
     (case classify c of
        Ordinary \<Rightarrow> parse_pattern cs FreshAtom (Match (Lit c) Once # cur) fin
      | Dot \<Rightarrow> parse_pattern cs FreshAtom (Match AnyChar Once # cur) fin
      | Bar \<Rightarrow> parse_pattern cs NoAtom [] (rev cur # fin)
      | Caret \<Rightarrow> parse_pattern cs NoAtom (Assert InputStart # cur) fin
      | Dollar \<Rightarrow> parse_pattern cs NoAtom (Assert InputEnd # cur) fin
      | Backslash \<Rightarrow>
          (case cs of
             [] \<Rightarrow> Malformed
           | e # cs' \<Rightarrow>
               if e = CHR ''b'' then parse_pattern cs' NoAtom (Assert WordBoundary # cur) fin
               else OutsideFragment)
      | Bracket \<Rightarrow> OutsideFragment
      | k \<Rightarrow>
          (case (prec, cur) of
             (FreshAtom, Match a Once # cur') \<Rightarrow>
               parse_pattern cs Quantified (Match a (quantifier_of k) # cur') fin
           | (Quantified, _) \<Rightarrow>
               if k = QuestionMark then parse_pattern cs LazyQuantified cur fin else Malformed
           | _ \<Rightarrow> Malformed))"

subsection \<open>Regular expressions: matching\<close>

text \<open>The class \<^verbatim>\<open>\w\<close>: digits, ASCII letters and the underscore.\<close>

definition is_word_char :: "char \<Rightarrow> bool" where
  "is_word_char c = (let n = (of_char c :: nat) in
     (48 \<le> n \<and> n \<le> 57) \<or> (65 \<le> n \<and> n \<le> 90) \<or> n = 95 \<or> (97 \<le> n \<and> n \<le> 122))"

text \<open>
  \<^verbatim>\<open>\b\<close> holds at a position when exactly one of the character before it and the
  character after it is a word character; the start and the end of the input count as
  non-word characters. Without the flag \<open>m\<close>, \<^verbatim>\<open>^\<close> holds at the start of the input only
  and \<^verbatim>\<open>$\<close> at its end only. The matcher carries the previous character (\<open>None\<close> at the
  start) and the rest of the input.
\<close>

definition at_boundary :: "char option \<Rightarrow> string \<Rightarrow> bool" where
  "at_boundary prev rest =
     ((case prev of None \<Rightarrow> False | Some c \<Rightarrow> is_word_char c)
       \<noteq> (case rest of [] \<Rightarrow> False | d # _ \<Rightarrow> is_word_char d))"

fun assertion_holds :: "assertion \<Rightarrow> char option \<Rightarrow> string \<Rightarrow> bool" where
  "assertion_holds WordBoundary prev rest = at_boundary prev rest"
| "assertion_holds InputStart prev rest = (prev = None)"
| "assertion_holds InputEnd prev rest = (rest = [])"

text \<open>
  With the flag \<open>i\<close> a literal matches a character when both have the same canonical form.
  Without the flag \<open>s\<close> the dot matches every character but a line terminator (of the
  characters up to code 255: line feed and carriage return).
\<close>

fun atom_matches :: "js_runtime \<Rightarrow> atom \<Rightarrow> char \<Rightarrow> bool" where
  "atom_matches rt (Lit c) d = (js_canonicalize rt c = js_canonicalize rt d)"
| "atom_matches rt AnyChar d = ((of_char d :: nat) \<noteq> 10 \<and> (of_char d :: nat) \<noteq> 13)"

text \<open>
  \<open>match_terms rt ts prev rest\<close>: the terms \<open>ts\<close> match some prefix of \<open>rest\<close>. Every way of
  dividing the input among the quantified atoms is tried, as backtracking does.
\<close>

fun match_terms :: "js_runtime \<Rightarrow> regex_term list \<Rightarrow> char option \<Rightarrow> string \<Rightarrow> bool" where
  "match_terms rt [] prev rest = True"
| "match_terms rt (Assert a # ts) prev rest = (assertion_holds a prev rest \<and> match_terms rt ts prev rest)"
| "match_terms rt (Match x Once # ts) prev [] = False"
| "match_terms rt (Match x Once # ts) prev (d # rest) =
     (atom_matches rt x d \<and> match_terms rt ts (Some d) rest)"
| "match_terms rt (Match x ZeroOrOne # ts) prev [] = match_terms rt ts prev []"
| "match_terms rt (Match x ZeroOrOne # ts) prev (d # rest) =
     ((atom_matches rt x d \<and> match_terms rt ts (Some d) rest) \<or> match_terms rt ts prev (d # rest))"
| "match_terms rt (Match x ZeroOrMore # ts) prev [] = match_terms rt ts prev []"
| "match_terms rt (Match x ZeroOrMore # ts) prev (d # rest) =
     ((atom_matches rt x d \<and> match_terms rt (Match x ZeroOrMore # ts) (Some d) rest)
      \<or> match_terms rt ts prev (d # rest))"
| "match_terms rt (Match x OneOrMore # ts) prev [] = False"
| "match_terms rt (Match x OneOrMore # ts) prev (d # rest) =
     (atom_matches rt x d \<and> match_terms rt (Match x ZeroOrMore # ts) (Some d) rest)"

definition match_here :: "js_runtime \<Rightarrow> regex_term list list \<Rightarrow> char option \<Rightarrow> string \<Rightarrow> bool" where
  "match_here rt alts prev rest = list_ex (\<lambda>ts. match_terms rt ts prev rest) alts"

text \<open>\<open>RegExp.prototype.test\<close>: the pattern is tried at every start position, left to right.\<close>

fun test_from :: "js_runtime \<Rightarrow> regex_term list list \<Rightarrow> char option \<Rightarrow> string \<Rightarrow> bool" where
  "test_from rt alts prev [] = match_here rt alts prev []"
| "test_from rt alts prev (d # rest) =
     (match_here rt alts prev (d # rest) \<or> test_from rt alts (Some d) rest)"

text \<open>
  \<open>new RegExp(pattern, 'i').test(content)\<close>: the constructor throws a SyntaxError on a
  malformed pattern; a pattern outside the fragment is left to the runtime.
\<close>

definition regexp_test :: "js_runtime \<Rightarrow> string \<Rightarrow> string \<Rightarrow> exn + bool" where
  "regexp_test rt pattern content =
     (case parse_pattern pattern NoAtom [] [] of
        Pattern alts \<Rightarrow> Inr (test_from rt alts None content)
      | Malformed \<Rightarrow> Inl SyntaxError
      | OutsideFragment \<Rightarrow> js_other_regexp rt pattern content)"

subsection \<open>\<open>checkAdContent\<close>, \<open>addToBlacklist\<close>, \<open>removeFromBlacklist\<close>\<close>

text \<open>The seeded value of the module-level array \<open>blacklistWords\<close>.\<close>

definition blacklistWords :: "string list" where
  "blacklistWords =
    [''seks'', ''porno'', ''gokken'', ''drugs'', ''wapen'', ''nep'', ''scam'', ''escort'', ''nude'', ''fake'',
     ''sex'', ''porn'', ''gambling'', ''weapon'', ''fraud'', ''cocaine'', ''heroin'', ''marihuana'', ''weed'',
     ''prostitutie'', ''hoer'', ''bordeel'', ''illegaal'', ''gestolen'', ''namaak'', ''oplichting'',
     ''bitcoin scam'', ''pyramid scheme'', ''ponzi'', ''money laundering'', ''witwassen'']"

record ContentCheckResult =
  allowed :: bool
  blockedWords :: "string list"
  reason :: "string option"

text \<open>
  The source text of the expression built for an entry:
  \<^verbatim>\<open>`\\b${word.toLowerCase()}\\b`\<close>, the entry being interpolated unescaped.
\<close>

definition word_pattern :: "js_runtime \<Rightarrow> string \<Rightarrow> string" where
  "word_pattern rt word = [CHR 0x5C, CHR ''b''] @ js_toLowerCase rt word @ [CHR 0x5C, CHR ''b'']"

text \<open>
  The \<open>for (const word of blacklistWords)\<close> loop: the entries whose expression matches the
  content are pushed to \<open>foundWords\<close> in blacklist order. The first expression that throws
  ends the loop and the function.
\<close>

fun findBlockedWords :: "js_runtime \<Rightarrow> string list \<Rightarrow> string \<Rightarrow> exn + string list" where
  "findBlockedWords rt [] content = Inr []"
| "findBlockedWords rt (word # ws) content =
     (case regexp_test rt (word_pattern rt word) content of
        Inl e \<Rightarrow> Inl e
      | Inr hit \<Rightarrow>
          (case findBlockedWords rt ws content of
             Inl e \<Rightarrow> Inl e
           | Inr found \<Rightarrow> Inr (if hit then word # found else found)))"

text \<open>
  \<open>checkAdContent\<close> reads the module-level blacklist; the model takes its current value as
  an argument. \<open>Inl\<close> is a thrown exception.
\<close>

definition checkAdContent :: "js_runtime \<Rightarrow> string list \<Rightarrow> string \<Rightarrow> string \<Rightarrow> exn + ContentCheckResult" where
  "checkAdContent rt bl title description =
     (let content = js_toLowerCase rt (title @ '' '' @ description) in
      case findBlockedWords rt bl content of
        Inl e \<Rightarrow> Inl e
      | Inr foundWords \<Rightarrow>
          if length foundWords > 0
          then Inr \<lparr>allowed = False, blockedWords = foundWords,
                    reason = Some (''Advertentie bevat verboden woorden: '' @ join '', '' foundWords)\<rparr>
          else Inr \<lparr>allowed = True, blockedWords = [], reason = None\<rparr>)"

text \<open>
  \<open>addToBlacklist\<close> pushes the lower-cased words; \<open>removeFromBlacklist\<close> splices out, for
  each given word in turn, the entry at \<open>indexOf\<close> of its lower-cased form (the first
  occurrence), if there is one.
\<close>

definition addToBlacklist :: "js_runtime \<Rightarrow> string list \<Rightarrow> string list \<Rightarrow> string list" where
  "addToBlacklist rt words bl = bl @ map (js_toLowerCase rt) words"

definition removeFromBlacklist :: "js_runtime \<Rightarrow> string list \<Rightarrow> string list \<Rightarrow> string list" where
  "removeFromBlacklist rt words bl = foldl (\<lambda>b word. remove1 (js_toLowerCase rt word) b) bl words"

subsection \<open>What "contains an entry as a whole word" means\<close>

text \<open>
  A plain word has no character of the pattern syntax
  (\<^verbatim>\<open>^ $ \ . * + ? ( ) [ ] { } |\<close>). The content contains the entry \<open>w\<close> as a whole word
  when it splits into \<open>pre @ mid @ post\<close> such that \<open>mid\<close> equals the lower-cased entry up
  to letter case (character by character, under the canonical form of the flag \<open>i\<close>) and
  there is a word boundary on both sides of \<open>mid\<close>.
\<close>

definition plain_word :: "string \<Rightarrow> bool" where
  "plain_word w = list_all (\<lambda>c. classify c = Ordinary) w"

definition boundary_between :: "string \<Rightarrow> string \<Rightarrow> bool" where
  "boundary_between l r = ((l \<noteq> [] \<and> is_word_char (last l)) \<noteq> (r \<noteq> [] \<and> is_word_char (hd r)))"

definition contains_whole_word :: "js_runtime \<Rightarrow> string \<Rightarrow> string \<Rightarrow> bool" where
  "contains_whole_word rt content w =
     (\<exists>pre mid post. content = pre @ mid @ post
        \<and> map (js_canonicalize rt) mid = map (js_canonicalize rt) (js_toLowerCase rt w)
        \<and> boundary_between pre (mid @ post) \<and> boundary_between (pre @ mid) post)"

text \<open>The character before the position reached after reading \<open>pre\<close>.\<close>

definition prev_of :: "char option \<Rightarrow> string \<Rightarrow> char option" where
  "prev_of prev pre = (if pre = [] then prev else Some (last pre))"

text \<open>The terms that a sequence of ordinary characters parses to.\<close>

definition literal_terms :: "string \<Rightarrow> regex_term list" where
  "literal_terms w = map (\<lambda>c. Match (Lit c) Once) w"

section \<open>Blocked-ad logger (module \<open>logging/blockedAdsLogger\<close>)\<close>

text \<open>
  A log entry. The timestamp is written as an ISO string by \<open>toISOString\<close> and read back
  with \<open>new Date(...).getTime()\<close>; the model keeps the milliseconds since the epoch.
\<close>

record BlockedAdEntry =
  e_id :: string
  e_timestamp :: int
  e_ipAddress :: string
  e_title :: string
  e_description :: string
  e_blockedWords :: "string list"
  e_userAgent :: "string option"

definition MAX_LOG_ENTRIES :: nat where
  "MAX_LOG_ENTRIES = 1000"

text \<open>
  The log file \<open>logs/blocked_ads.json\<close>: absent or unreadable (\<open>None\<close>), or holding text that
  is not JSON (\<open>Garbage\<close>) or a JSON value. Of the JSON values only their behaviour in
  \<open>readExistingLogs\<close> and in the spread \<open>[logEntry, ...existingLogs]\<close> matters: a falsy value
  (\<open>null\<close>, \<open>0\<close>, \<open>false\<close>, the empty string), an array of entries, or another truthy
  value that is not iterable (a number, \<open>true\<close>, an object).
\<close>

datatype json_value = JFalsy | JNotIterable | JEntries "BlockedAdEntry list"

datatype file_data = Garbage | Json json_value

type_synonym log_file = "file_data option"

text \<open>
  What one call of \<open>logBlockedAd\<close> reads from its environment: the variable
  \<open>process.env.LOG_BLOCKED_ADS\<close>, the clock, the id that \<open>generateLogId\<close> builds from the
  clock and the random generator, whether \<open>fs.mkdir\<close> fails, and whether \<open>fs.writeFile\<close>
  fails (\<open>Some f\<close>: it fails and leaves the file as \<open>f\<close>).
\<close>

record log_env =
  env_LOG_BLOCKED_ADS :: "string option"
  env_now :: int
  env_logId :: string
  env_mkdir_fails :: bool
  env_write_fails :: "log_file option"

definition isLoggingEnabled :: "log_env \<Rightarrow> bool" where
  "isLoggingEnabled env = (env_LOG_BLOCKED_ADS env = Some ''true'')"

definition fs_readFile :: "log_file \<Rightarrow> exn + file_data" where
  "fs_readFile file = (case file of None \<Rightarrow> Inl IOError | Some d \<Rightarrow> Inr d)"

definition JSON_parse :: "file_data \<Rightarrow> exn + json_value" where
  "JSON_parse d = (case d of Garbage \<Rightarrow> Inl SyntaxError | Json v \<Rightarrow> Inr v)"

text \<open>\<open>readExistingLogs\<close>: \<open>JSON.parse(data) || []\<close>, and \<open>[]\<close> in the catch block.\<close>

definition readExistingLogs :: "log_file \<Rightarrow> json_value" where
  "readExistingLogs file =
     (case fs_readFile file of
        Inl _ \<Rightarrow> JEntries []
      | Inr data \<Rightarrow>
          (case JSON_parse data of
             Inl _ \<Rightarrow> JEntries []
           | Inr v \<Rightarrow> (if v = JFalsy then JEntries [] else v)))"

text \<open>
  \<open>writeLogsToFile\<close>: \<open>mkdir\<close>, then \<open>writeFile\<close>; an error of either is caught and printed,
  so the function always returns normally. The result is the file after the call.
\<close>

definition writeLogsToFile :: "log_env \<Rightarrow> BlockedAdEntry list \<Rightarrow> log_file \<Rightarrow> log_file" where
  "writeLogsToFile env logs file =
     (if env_mkdir_fails env then file
      else case env_write_fails env of
             Some left \<Rightarrow> left
           | None \<Rightarrow> Some (Json (JEntries logs)))"

text \<open>
  \<open>limitLogEntries\<close>. \<open>Array.prototype.sort\<close> is stable; the comparator
  \<open>(a, b) => time(b) - time(a)\<close> orders by descending timestamp, which is the stable
  insertion sort on the negated timestamp.
\<close>

definition limitLogEntries :: "BlockedAdEntry list \<Rightarrow> BlockedAdEntry list" where
  "limitLogEntries logs =
     (if length logs \<le> MAX_LOG_ENTRIES then logs
      else take MAX_LOG_ENTRIES (sort_key (\<lambda>e. - e_timestamp e) logs))"

text \<open>The spread \<open>...existingLogs\<close> throws a TypeError on a value that is not iterable.\<close>

definition spread :: "json_value \<Rightarrow> exn + BlockedAdEntry list" where
  "spread v = (case v of JEntries es \<Rightarrow> Inr es | _ \<Rightarrow> Inl TypeError)"

definition newLogEntry ::
  "log_env \<Rightarrow> string \<Rightarrow> string \<Rightarrow> string \<Rightarrow> string list \<Rightarrow> string option \<Rightarrow> BlockedAdEntry" where
  "newLogEntry env ipAddress title description words userAgent =
     \<lparr>e_id = env_logId env, e_timestamp = env_now env, e_ipAddress = ipAddress,
      e_title = take 200 title, e_description = take 500 description,
      e_blockedWords = words, e_userAgent = map_option (take 200) userAgent\<rparr>"

text \<open>The body of the \<open>try\<close> block of \<open>logBlockedAd\<close>: its outcome and the file afterwards.\<close>

definition logBlockedAd_try ::
  "log_env \<Rightarrow> string \<Rightarrow> string \<Rightarrow> string \<Rightarrow> string list \<Rightarrow> string option \<Rightarrow> log_file
     \<Rightarrow> (exn + unit) \<times> log_file" where
  "logBlockedAd_try env ipAddress title description words userAgent file =
     (let logEntry = newLogEntry env ipAddress title description words userAgent;
          existingLogs = readExistingLogs file
      in case spread existingLogs of
           Inl e \<Rightarrow> (Inl e, file)
         | Inr es \<Rightarrow>
             (let updatedLogs = logEntry # es;
                  limitedLogs = limitLogEntries updatedLogs
              in (Inr (), writeLogsToFile env limitedLogs file)))"

text \<open>
  \<open>logBlockedAd\<close>: returns at once when logging is disabled; otherwise runs the \<open>try\<close> block
  and, in the \<open>catch\<close> block, prints the error. \<open>Inl\<close> would be a rejected promise.
\<close>

definition logBlockedAd ::
  "log_env \<Rightarrow> string \<Rightarrow> string \<Rightarrow> string \<Rightarrow> string list \<Rightarrow> string option \<Rightarrow> log_file
     \<Rightarrow> (exn + unit) \<times> log_file" where
  "logBlockedAd env ipAddress title description words userAgent file =
     (if \<not> isLoggingEnabled env then (Inr (), file)
      else case logBlockedAd_try env ipAddress title description words userAgent file of
             (Inl e, file') \<Rightarrow> (Inr (), file')
           | (Inr u, file') \<Rightarrow> (Inr (), file'))"

text \<open>One logged submission: the environment of the call and its arguments.\<close>

record log_call =
  call_env :: log_env
  call_ip :: string
  call_title :: string
  call_description :: string
  call_words :: "string list"
  call_userAgent :: "string option"

definition call_entry :: "log_call \<Rightarrow> BlockedAdEntry" where
  "call_entry c = newLogEntry (call_env c) (call_ip c) (call_title c) (call_description c)
                     (call_words c) (call_userAgent c)"

definition log_one :: "log_file \<Rightarrow> log_call \<Rightarrow> log_file" where
  "log_one file c = snd (logBlockedAd (call_env c) (call_ip c) (call_title c) (call_description c)
                            (call_words c) (call_userAgent c) file)"

text \<open>Logging a sequence of submissions, one after the other.\<close>

definition log_all :: "log_call list \<Rightarrow> log_file \<Rightarrow> log_file" where
  "log_all calls file = foldl log_one file calls"

text \<open>A call with logging enabled whose file operations succeed.\<close>

definition call_succeeds :: "log_call \<Rightarrow> bool" where
  "call_succeeds c = (isLoggingEnabled (call_env c) \<and> \<not> env_mkdir_fails (call_env c)
                        \<and> env_write_fails (call_env c) = None)"

section \<open>Ad lifecycle (schema, storage, scheduled jobs, routes)\<close>

subsection \<open>Tables\<close>

text \<open>
  The columns of the tables \<open>ads\<close>, \<open>categories\<close>, \<open>admin_settings\<close> and
  \<open>filter_definitions\<close> that the modelled code reads or writes. A column without
  \<open>notNull()\<close> is an option; timestamps are milliseconds since the epoch; prices are
  integer cents. The status column is plain text. The columns \<open>subcategory_id\<close> and
  \<open>primary_image_index\<close> of \<open>ads\<close> are read by none of the modelled code and are left
  out of the row.
\<close>

record ad =
  a_id :: int
  a_title :: string
  a_description :: string
  a_price :: "int option"
  a_currency :: "string option"
  a_categoryId :: "int option"
  a_location :: string
  a_phone :: "string option"
  a_email :: "string option"
  a_images :: "string list"
  a_status :: "string option"
  a_views :: "int option"
  a_userId :: "string option"
  a_createdAt :: "int option"
  a_updatedAt :: "int option"
  a_expiresAt :: "int option"

record category =
  c_id :: int
  c_name :: string
  c_slug :: string

record admin_setting =
  s_key :: string
  s_value :: string

text \<open>
  A filter descriptor, as stored in \<open>filter_definitions\<close> or as synthesized per request.
  The id is the serial number of a stored row or the string id of a synthesized one.
\<close>

record filter_def =
  f_id :: "int + string"
  f_categorySlug :: string
  f_field :: string
  f_label :: string
  f_type :: string
  f_options :: "string list option"
  f_placeholder :: "string option"
  f_required :: "bool option"
  f_sortOrder :: "int option"
  f_isActive :: "bool option"

text \<open>
  The database. Of the table \<open>users\<close> only the primary key matters here, which
  \<open>ads.user_id\<close> references. \<open>adReferences\<close> holds the values of the columns \<open>ad_id\<close> of
  the tables \<open>messages\<close>, \<open>conversations\<close>, \<open>chat_messages\<close>, \<open>favorites\<close>, \<open>bids\<close> and
  \<open>recently_viewed\<close>, which reference \<open>ads.id\<close>. No reference of the schema has an
  \<open>ON DELETE\<close> action, so a referenced row cannot be deleted.
\<close>

record database =
  ads :: "ad list"
  categories :: "category list"
  adminSettings :: "admin_setting list"
  filterDefinitions :: "filter_def list"
  users :: "string list"
  adReferences :: "int list"

text \<open>The range of the column type \<open>integer\<close>; a query given a number outside it throws.\<close>

definition int4 :: "int \<Rightarrow> bool" where
  "int4 n = (- 2147483648 \<le> n \<and> n \<le> 2147483647)"

subsection \<open>SQL conditions\<close>

text \<open>
  Comparisons with NULL are unknown (\<open>None\<close>), \<open>AND\<close> is three-valued, and a \<open>WHERE\<close>
  clause selects the rows on which its condition is true.
\<close>

definition sql_lt :: "int option \<Rightarrow> int \<Rightarrow> bool option" where
  "sql_lt x y = map_option (\<lambda>v. v < y) x"

definition sql_eq :: "'a option \<Rightarrow> 'a \<Rightarrow> bool option" where
  "sql_eq x y = map_option (\<lambda>v. v = y) x"

definition sql_ne :: "'a option \<Rightarrow> 'a \<Rightarrow> bool option" where
  "sql_ne x y = map_option (\<lambda>v. v \<noteq> y) x"

definition sql_and :: "bool option \<Rightarrow> bool option \<Rightarrow> bool option" where
  "sql_and p q =
     (if p = Some False \<or> q = Some False then Some False
      else if p = Some True \<and> q = Some True then Some True else None)"

definition selected :: "bool option \<Rightarrow> bool" where
  "selected p = (p = Some True)"

subsection \<open>Storage operations (class \<open>DatabaseStorage\<close>)\<close>



text \<open>
  \<open>updateAdStatus\<close>: \<open>UPDATE ads SET status, updated_at WHERE id = ... RETURNING *\<close>; the
  result is the first returned row, \<open>undefined\<close> when no row has the id.
\<close>

definition updateAdStatus :: "int \<Rightarrow> string \<Rightarrow> int \<Rightarrow> database \<Rightarrow> ad option \<times> database" where
  "updateAdStatus i newStatus now d =
     (let rows = map (\<lambda>a. if a_id a = i then a\<lparr>a_status := Some newStatus, a_updatedAt := Some now\<rparr> else a)
                     (ads d)
      in (case filter (\<lambda>a. a_id a = i) rows of [] \<Rightarrow> None | a # _ \<Rightarrow> Some a,
          d\<lparr>ads := rows\<rparr>))"

text \<open>
  \<open>deleteAd\<close>: \<open>DELETE FROM ads WHERE id = ...\<close>; true when a row was deleted. The
  statement throws, and deletes nothing, when a row to delete is still referenced from
  another table.
\<close>

definition deleteAd :: "int \<Rightarrow> database \<Rightarrow> exn + bool \<times> database" where
  "deleteAd i d =
     (if list_ex (\<lambda>a. a_id a = i) (ads d) \<and> i \<in> set (adReferences d) then Inl IOError
      else Inr (length (filter (\<lambda>a. a_id a = i) (ads d)) > 0,
                d\<lparr>ads := filter (\<lambda>a. a_id a \<noteq> i) (ads d)\<rparr>))"

subsection \<open>Expiration sweep (scheduled job \<open>checkExpiredAds\<close>)\<close>

definition sixtyDays :: int where
  "sixtyDays = 60 * 24 * 60 * 60 * 1000"

definition oneDay :: int where
  "oneDay = 24 * 60 * 60 * 1000"

text \<open>The condition \<open>and(lt(ads.createdAt, sixtyDaysAgo), ne(ads.status, 'expired'))\<close>.\<close>

definition sweep_condition :: "int \<Rightarrow> ad \<Rightarrow> bool option" where
  "sweep_condition sixtyDaysAgo a =
     sql_and (sql_lt (a_createdAt a) sixtyDaysAgo) (sql_ne (a_status a) ''expired'')"

text \<open>
  \<open>checkExpiredAds\<close> returns without doing anything when \<open>db\<close> is null. Otherwise it
  selects the qualifying rows and, when there are any, updates all of them to
  \<open>expired\<close>. A failing query is caught and printed; the table is then unchanged
  (\<open>query_fails\<close>). The argument \<open>now\<close> is \<open>Date.now()\<close>.
\<close>

definition checkExpiredAds :: "int \<Rightarrow> bool \<Rightarrow> database option \<Rightarrow> database option" where
  "checkExpiredAds now query_fails db =
     (case db of
        None \<Rightarrow> None
      | Some d \<Rightarrow>
          if query_fails then Some d
          else
            (let sixtyDaysAgo = now - sixtyDays;
                 expiredAds = filter (\<lambda>a. selected (sweep_condition sixtyDaysAgo a)) (ads d)
             in if length expiredAds > 0
                then Some (d\<lparr>ads := map (\<lambda>a. if selected (sweep_condition sixtyDaysAgo a)
                                               then a\<lparr>a_status := Some ''expired''\<rparr> else a) (ads d)\<rparr>)
                else Some d))"

subsection \<open>Status routes\<close>

definition the_default :: "'a \<Rightarrow> 'a option \<Rightarrow> 'a" where
  "the_default x v = (case v of None \<Rightarrow> x | Some y \<Rightarrow> y)"

text \<open>
  The one-click endpoints \<open>GET /api/ads/:id/approve\<close> and \<open>GET /api/ads/:id/reject\<close>. The
  id is \<open>parseInt(req.params.id)\<close>, \<open>None\<close> when that is NaN. The query throws on a NaN
  id, on an id outside the range of the column, on a null \<open>db\<close> and when the database
  fails (\<open>query_fails\<close>); the handler answers that with status 500. The response is the
  HTTP status and the heading of the HTML page.
\<close>

definition one_click_route ::
  "string \<Rightarrow> string \<Rightarrow> int option \<Rightarrow> int \<Rightarrow> bool \<Rightarrow> database option
     \<Rightarrow> (nat \<times> string) \<times> database option" where
  "one_click_route newStatus heading i now query_fails db =
     (case (i, db) of
        (Some n, Some d) \<Rightarrow>
          if query_fails \<or> \<not> int4 n then ((500, ''Server Error''), db)
          else
            (case updateAdStatus n newStatus now d of
               (None, d') \<Rightarrow> ((404, ''Advertentie niet gevonden''), Some d')
             | (Some a, d') \<Rightarrow> ((200, heading), Some d'))
      | _ \<Rightarrow> ((500, ''Server Error''), db))"

definition approve_route ::
  "int option \<Rightarrow> int \<Rightarrow> bool \<Rightarrow> database option \<Rightarrow> (nat \<times> string) \<times> database option" where
  "approve_route = one_click_route ''approved'' ''Advertentie Goedgekeurd''"

definition reject_route ::
  "int option \<Rightarrow> int \<Rightarrow> bool \<Rightarrow> database option \<Rightarrow> (nat \<times> string) \<times> database option" where
  "reject_route = one_click_route ''rejected'' ''Advertentie Afgewezen''"

text \<open>
  \<open>PATCH /api/ads/:id/status\<close> behind the \<open>isAdmin\<close> middleware. The outcome of the
  middleware is an input: \<open>None\<close> when it calls \<open>next()\<close>, \<open>Some code\<close> when it answers
  the request itself (403, or 500 on an error of its own) and the handler does not run.
\<close>

definition patch_status_route ::
  "nat option \<Rightarrow> int option \<Rightarrow> string \<Rightarrow> int \<Rightarrow> bool \<Rightarrow> database option
     \<Rightarrow> nat \<times> database option" where
  "patch_status_route isAdmin i newStatus now query_fails db =
     (if isAdmin \<noteq> None then (the_default 403 isAdmin, db)
      else if newStatus \<notin> set [''pending'', ''approved'', ''rejected''] then (400, db)
      else case (i, db) of
             (Some n, Some d) \<Rightarrow>
               if query_fails \<or> \<not> int4 n then (500, db)
               else
                 (case updateAdStatus n newStatus now d of
                    (None, d') \<Rightarrow> (404, Some d')
                  | (Some a, d') \<Rightarrow> (200, Some d'))
           | _ \<Rightarrow> (500, db))"

text \<open>
  \<open>DELETE /api/ads/:id\<close> behind \<open>isAdmin\<close>: a hard delete. A NaN id is answered with 400,
  a thrown query with 500, no deleted row with 404.
\<close>

definition delete_route ::
  "nat option \<Rightarrow> int option \<Rightarrow> bool \<Rightarrow> database option \<Rightarrow> nat \<times> database option" where
  "delete_route isAdmin i query_fails db =
     (if isAdmin \<noteq> None then (the_default 403 isAdmin, db)
      else case i of
             None \<Rightarrow> (400, db)
           | Some n \<Rightarrow>
               (case db of
                  None \<Rightarrow> (500, db)
                | Some d \<Rightarrow>
                    if query_fails \<or> \<not> int4 n then (500, db)
                    else
                      (case deleteAd n d of
                         Inl e \<Rightarrow> (500, db)
                       | Inr (False, d') \<Rightarrow> (404, Some d')
                       | Inr (True, d') \<Rightarrow> (200, Some d'))))"

text \<open>
  The operations that write the status column of existing ads or remove ads, each with
  its inputs; the Boolean says that the database fails during the operation.
\<close>

datatype operation =
    ExpirationSweep int bool
  | OneClickApprove "int option" int bool
  | OneClickReject "int option" int bool
  | PatchStatus "nat option" "int option" string int bool
  | DeleteAd "nat option" "int option" bool

fun apply_operation :: "operation \<Rightarrow> database option \<Rightarrow> database option" where
  "apply_operation (ExpirationSweep now query_fails) db = checkExpiredAds now query_fails db"
| "apply_operation (OneClickApprove i now query_fails) db = snd (approve_route i now query_fails db)"
| "apply_operation (OneClickReject i now query_fails) db = snd (reject_route i now query_fails db)"
| "apply_operation (PatchStatus isAdmin i newStatus now query_fails) db =
     snd (patch_status_route isAdmin i newStatus now query_fails db)"
| "apply_operation (DeleteAd isAdmin i query_fails) db = snd (delete_route isAdmin i query_fails db)"

subsection \<open>Ad creation (\<open>POST /api/ads\<close>)\<close>
















subsection \<open>What the operations are to do\<close>

text \<open>
  The sweep is for the ads that were created more than sixty days ago and whose status is
  anything but \<open>expired\<close>; an ad without creation time or without status does not qualify.
\<close>

definition sweep_qualifies :: "int \<Rightarrow> ad \<Rightarrow> bool" where
  "sweep_qualifies now a =
     (case (a_createdAt a, a_status a) of
        (Some c, Some s) \<Rightarrow> c < now - sixtyDays \<and> s \<noteq> ''expired''
      | _ \<Rightarrow> False)"

definition expire_if_old :: "int \<Rightarrow> ad \<Rightarrow> ad" where
  "expire_if_old now a = (if sweep_qualifies now a then a\<lparr>a_status := Some ''expired''\<rparr> else a)"

text \<open>Setting the status (and the time of the update) of the ads with the id \<open>n\<close>.\<close>

definition set_status_of :: "int \<Rightarrow> string \<Rightarrow> int \<Rightarrow> ad \<Rightarrow> ad" where
  "set_status_of n newStatus now a =
     (if a_id a = n then a\<lparr>a_status := Some newStatus, a_updatedAt := Some now\<rparr> else a)"


text \<open>
  What each operation is to do to a connected database. The operations change only the
  table \<open>ads\<close>. An operation has no effect when its query fails, when the id is not a
  number or outside the range of the column, when the admin check refuses the request,
  when the new status of the admin route is not one of the three, and when the ad to
  delete is still referenced from another table.
\<close>

definition status_effect :: "operation \<Rightarrow> database \<Rightarrow> database" where
  "status_effect op d =
     (case op of
        ExpirationSweep now query_fails \<Rightarrow>
          if query_fails then d else d\<lparr>ads := map (expire_if_old now) (ads d)\<rparr>
      | OneClickApprove i now query_fails \<Rightarrow>
          (case i of
             Some n \<Rightarrow>
               if \<not> query_fails \<and> int4 n
               then d\<lparr>ads := map (set_status_of n ''approved'' now) (ads d)\<rparr> else d
           | None \<Rightarrow> d)
      | OneClickReject i now query_fails \<Rightarrow>
          (case i of
             Some n \<Rightarrow>
               if \<not> query_fails \<and> int4 n
               then d\<lparr>ads := map (set_status_of n ''rejected'' now) (ads d)\<rparr> else d
           | None \<Rightarrow> d)
      | PatchStatus isAdmin i newStatus now query_fails \<Rightarrow>
          (case (isAdmin, i) of
             (None, Some n) \<Rightarrow>
               if \<not> query_fails \<and> int4 n \<and> newStatus \<in> set [''pending'', ''approved'', ''rejected'']
               then d\<lparr>ads := map (set_status_of n newStatus now) (ads d)\<rparr> else d
           | _ \<Rightarrow> d)
      | DeleteAd isAdmin i query_fails \<Rightarrow>
          (case (isAdmin, i) of
             (None, Some n) \<Rightarrow>
               if \<not> query_fails \<and> int4 n \<and> n \<notin> set (adReferences d)
               then d\<lparr>ads := filter (\<lambda>a. a_id a \<noteq> n) (ads d)\<rparr> else d
           | _ \<Rightarrow> d))"

section \<open>Dynamic filter generator\<close>

subsection \<open>Helpers\<close>

text \<open>\<open>String.prototype.includes\<close>: the pattern occurs somewhere in the string.\<close>

fun starts_with :: "string \<Rightarrow> string \<Rightarrow> bool" where
  "starts_with s [] = True"
| "starts_with [] (p # ps) = False"
| "starts_with (c # s) (p # ps) = (c = p \<and> starts_with s ps)"

fun string_includes :: "string \<Rightarrow> string \<Rightarrow> bool" where
  "string_includes [] pat = (pat = [])"
| "string_includes (c # s) pat = (starts_with (c # s) pat \<or> string_includes s pat)"

text \<open>
  \<open>[...new Set(xs)]\<close>: the distinct elements in the order of their first occurrence.
\<close>

definition uniq :: "'a list \<Rightarrow> 'a list" where
  "uniq xs = fold (\<lambda>x acc. if x \<in> set acc then acc else acc @ [x]) xs []"

text \<open>
  \<open>extractKeywords\<close> and \<open>capitalizeFirst\<close>. \<open>Array.prototype.sort\<close> without a comparator
  orders strings by their code units, which is \<^const>\<open>sort\<close> on \<^typ>\<open>string\<close> with the
  lexicographic order on character codes.
\<close>

definition extractKeywords :: "string \<Rightarrow> string list \<Rightarrow> string list" where
  "extractKeywords text keywords = uniq (filter (\<lambda>keyword. string_includes text (toLowerCase keyword)) keywords)"

definition capitalizeFirst :: "string \<Rightarrow> string" where
  "capitalizeFirst str = (case str of [] \<Rightarrow> [] | c # cs \<Rightarrow> upper_char c # cs)"

text \<open>Decimal digits of a natural number, and the euro sign in UTF-8.\<close>

fun decimal :: "nat \<Rightarrow> string" where
  "decimal n = (if n < 10 then [char_of (48 + n)] else decimal (n div 10) @ [char_of (48 + n mod 10)])"

declare decimal.simps [simp del]

definition euro :: string where
  "euro = [CHR 0xE2, CHR 0x82, CHR 0xAC]"

text \<open>A synthesized descriptor; every one of them is optional and active.\<close>

definition dynamic_filter ::
  "string \<Rightarrow> string \<Rightarrow> string \<Rightarrow> string \<Rightarrow> string \<Rightarrow> string list option \<Rightarrow> string \<Rightarrow> int \<Rightarrow> filter_def" where
  "dynamic_filter ident slug field label type opts placeholder sortOrder =
     \<lparr>f_id = Inr ident, f_categorySlug = slug, f_field = field, f_label = label, f_type = type,
      f_options = opts, f_placeholder = Some placeholder, f_required = Some False,
      f_sortOrder = Some sortOrder, f_isActive = Some True\<rparr>"

subsection \<open>\<open>generateCategorySpecificFilters\<close>\<close>

text \<open>A keyword family becomes a select facet when more than one of its keywords was found.\<close>

definition keyword_facet ::
  "string \<Rightarrow> string \<Rightarrow> string \<Rightarrow> string \<Rightarrow> string \<Rightarrow> int \<Rightarrow> (string \<Rightarrow> string) \<Rightarrow> string list
     \<Rightarrow> filter_def list" where
  "keyword_facet ident slug field label placeholder sortOrder render found =
     (if length found > 1
      then [dynamic_filter ident slug field label ''select'' (Some (sort (map render found)))
              placeholder sortOrder]
      else [])"

definition generateCategorySpecificFilters :: "string \<Rightarrow> ad list \<Rightarrow> filter_def list" where
  "generateCategorySpecificFilters categorySlug rows =
     (let allText = toLowerCase (join '' '' (map (\<lambda>a. a_title a @ '' '' @ a_description a) rows))
      in
        (if categorySlug = ''autos'' \<or> string_includes categorySlug ''auto''
         then
           keyword_facet ''dynamic-merk'' categorySlug ''merk'' ''Merk'' ''Selecteer merk'' 4 capitalizeFirst
             (extractKeywords allText
                [''toyota'', ''bmw'', ''mercedes'', ''volkswagen'', ''audi'', ''ford'', ''hyundai'',
                 ''kia'', ''nissan'', ''honda'', ''peugeot'', ''renault'', ''opel'', ''mazda'', ''suzuki''])
           @ keyword_facet ''dynamic-brandstof'' categorySlug ''brandstof'' ''Brandstof''
               ''Selecteer brandstof'' 5 capitalizeFirst
               (extractKeywords allText [''benzine'', ''diesel'', ''hybride'', ''elektrisch'', ''lpg''])
           @ keyword_facet ''dynamic-transmissie'' categorySlug ''transmissie'' ''Transmissie''
               ''Selecteer transmissie'' 6 capitalizeFirst
               (extractKeywords allText [''handgeschakeld'', ''automaat'', ''handmatig''])
         else [])
        @
        (if string_includes categorySlug ''telefoon'' \<or> string_includes categorySlug ''elektronica''
         then
           keyword_facet ''dynamic-merk'' categorySlug ''merk'' ''Merk'' ''Selecteer merk'' 4 capitalizeFirst
             (extractKeywords allText
                [''iphone'', ''apple'', ''samsung'', ''huawei'', ''xiaomi'', ''oppo'', ''vivo'',
                 ''oneplus'', ''google''])
           @ keyword_facet ''dynamic-conditie'' categorySlug ''conditie'' ''Conditie''
               ''Selecteer conditie'' 5 capitalizeFirst
               (extractKeywords allText [''nieuw'', ''gebruikt'', ''refurbished'', ''gereviseerd''])
         else [])
        @
        (if string_includes categorySlug ''kleding''
         then
           keyword_facet ''dynamic-maat'' categorySlug ''maat'' ''Maat'' ''Selecteer maat'' 4 toUpperCase
             (extractKeywords allText [''xs'', ''s'', ''m'', ''l'', ''xl'', ''xxl'', ''xxxl''])
           @ keyword_facet ''dynamic-conditie'' categorySlug ''conditie'' ''Conditie''
               ''Selecteer conditie'' 5 capitalizeFirst
               (extractKeywords allText [''nieuw'', ''gebruikt'', ''vintage''])
         else []))"

subsection \<open>\<open>generateDynamicFilters\<close>\<close>

text \<open>The approved ads of a category: \<open>and(eq(ads.categoryId, category.id), eq(ads.status, "approved"))\<close>.\<close>

definition categoryAds :: "database \<Rightarrow> category \<Rightarrow> ad list" where
  "categoryAds d cat =
     filter (\<lambda>a. selected (sql_and (sql_eq (a_categoryId a) (c_id cat))
                                    (sql_eq (a_status a) ''approved''))) (ads d)"

definition findCategoryBySlug :: "database \<Rightarrow> string \<Rightarrow> category option" where
  "findCategoryBySlug d slug =
     (case filter (\<lambda>c. c_slug c = slug) (categories d) of [] \<Rightarrow> None | c # _ \<Rightarrow> Some c)"

text \<open>The location facet: the distinct non-empty locations, when there is more than one.\<close>

definition locationFilters :: "string \<Rightarrow> ad list \<Rightarrow> filter_def list" where
  "locationFilters categorySlug rows =
     (let locations = uniq (filter (\<lambda>l. l \<noteq> []) (map a_location rows))
      in if length locations > 1
         then [dynamic_filter ''dynamic-location'' categorySlug ''location'' ''Locatie'' ''select''
                 (Some (sort locations)) ''Selecteer locatie'' 1]
         else [])"

text \<open>The price facets: offered when the positive prices are not all equal.\<close>

definition priceFilters :: "string \<Rightarrow> ad list \<Rightarrow> filter_def list" where
  "priceFilters categorySlug rows =
     (let prices = List.map_filter (\<lambda>a. case a_price a of
                                            None \<Rightarrow> None
                                          | Some p \<Rightarrow> if p > 0 then Some p else None) rows
      in case prices of
           [] \<Rightarrow> []
         | p # ps \<Rightarrow>
             (let minPrice = fold min ps p; maxPrice = fold max ps p
              in if maxPrice > minPrice
                 then [dynamic_filter ''dynamic-price-min'' categorySlug ''price_min'' ''Prijs vanaf''
                         ''number'' None (euro @ decimal (nat (minPrice div 100))) 2,
                       dynamic_filter ''dynamic-price-max'' categorySlug ''price_max'' ''Prijs tot''
                         ''number'' None (euro @ decimal (nat (maxPrice div 100))) 3]
                 else []))"

text \<open>
  \<open>generateDynamicFilters\<close>: an empty list when \<open>db\<close> is null, when the category is unknown,
  when it has no approved ads, and when a query throws (\<open>query_fails\<close>).
\<close>

definition generateDynamicFilters :: "string \<Rightarrow> bool \<Rightarrow> database option \<Rightarrow> filter_def list" where
  "generateDynamicFilters categorySlug query_fails db =
     (case db of
        None \<Rightarrow> []
      | Some d \<Rightarrow>
          if query_fails then []
          else
            (case findCategoryBySlug d categorySlug of
               None \<Rightarrow> []
             | Some cat \<Rightarrow>
                 (let rows = categoryAds d cat
                  in if length rows = 0 then []
                     else locationFilters categorySlug rows @ priceFilters categorySlug rows
                            @ generateCategorySpecificFilters categorySlug rows)))"

subsection \<open>\<open>GET /api/filters/:categorySlug\<close>\<close>

text \<open>
  The curated descriptors of a category: the active rows with the slug, ordered by
  \<open>sortOrder\<close> ascending (NULLs last).
\<close>

definition curatedFilters :: "database \<Rightarrow> string \<Rightarrow> filter_def list" where
  "curatedFilters d slug =
     (let rows = filter (\<lambda>f. f_categorySlug f = slug \<and> selected (sql_eq (f_isActive f) True))
                        (filterDefinitions d)
      in sort_key (\<lambda>f. the_default 0 (f_sortOrder f)) (filter (\<lambda>f. f_sortOrder f \<noteq> None) rows)
         @ filter (\<lambda>f. f_sortOrder f = None) rows)"

datatype filters_response = FiltersOk "filter_def list" | FiltersError nat string

text \<open>
  The handler: 500 when \<open>db\<close> is null or the query for the curated rows throws
  (\<open>curated_query_fails\<close>); the curated rows when there are any; the synthesized ones otherwise.
\<close>

definition filters_route :: "string \<Rightarrow> bool \<Rightarrow> bool \<Rightarrow> database option \<Rightarrow> filters_response" where
  "filters_route categorySlug curated_query_fails dynamic_query_fails db =
     (case db of
        None \<Rightarrow> FiltersError 500 ''Database not available''
      | Some d \<Rightarrow>
          if curated_query_fails then FiltersError 500 ''Server error''
          else
            (let filters = curatedFilters d categorySlug
             in if length filters = 0
                then FiltersOk (generateDynamicFilters categorySlug dynamic_query_fails db)
                else FiltersOk filters))"

section \<open>Rate limiters (modules \<open>middleware/rateLimiter\<close> and \<open>auth/security\<close>)\<close>

text \<open>
  The limiters are configurations of the library \<open>express-rate-limit\<close>, which is a
  dependency and not part of the repository. Its documented behaviour is modelled as far
  as the configurations use it: a fixed window per key, a request being over the limit when
  its hit count exceeds \<open>max\<close>, the default status code 429, and the default handler, which
  sends the option \<open>message\<close> with that status code. A configuration may replace the
  handler.
\<close>

datatype json_field = JString string | JNumber int

datatype response_body = TextBody string | JsonBody "(string \<times> json_field) list"

record limiter =
  lim_windowMs :: int
  lim_max :: nat
  lim_message :: "response_body option"
  lim_handler :: "(nat \<times> response_body) option"
  lim_skipSuccessfulRequests :: bool

definition default_message :: response_body where
  "default_message = TextBody ''Too many requests, please try again later.''"

definition default_statusCode :: nat where
  "default_statusCode = 429"

text \<open>The response sent to a request that is over the limit.\<close>

definition limit_response :: "limiter \<Rightarrow> nat \<times> response_body" where
  "limit_response l =
     (case lim_handler l of
        Some custom \<Rightarrow> custom
      | None \<Rightarrow> (default_statusCode, the_default default_message (lim_message l)))"

text \<open>
  The memory store: per key the number of hits in the current window and the time at which
  the window ends.
\<close>

type_synonym hit_store = "(string \<times> nat \<times> int) list"

definition store_lookup :: "hit_store \<Rightarrow> string \<Rightarrow> (nat \<times> int) option" where
  "store_lookup store k = map_of store k"

definition increment :: "limiter \<Rightarrow> string \<Rightarrow> int \<Rightarrow> hit_store \<Rightarrow> nat \<times> hit_store" where
  "increment l k now store =
     (case store_lookup store k of
        Some (hits, resetTime) \<Rightarrow>
          if now < resetTime
          then (hits + 1, (k, hits + 1, resetTime) # filter (\<lambda>e. fst e \<noteq> k) store)
          else (1, (k, 1, now + lim_windowMs l) # filter (\<lambda>e. fst e \<noteq> k) store)
      | None \<Rightarrow> (1, (k, 1, now + lim_windowMs l) # store))"

text \<open>
  The middleware, keyed by the client address: \<open>None\<close> when the request is passed on to the
  next handler, otherwise the response.
\<close>

definition rateLimit ::
  "limiter \<Rightarrow> string \<Rightarrow> int \<Rightarrow> hit_store \<Rightarrow> (nat \<times> response_body) option \<times> hit_store" where
  "rateLimit l ip now store =
     (let (totalHits, store') = increment l ip now store
      in if totalHits > lim_max l then (Some (limit_response l), store') else (None, store'))"

text \<open>
  With \<open>skipSuccessfulRequests\<close> a request that was passed on and answered with a status
  below 400 is taken out of the count again.
\<close>

definition after_response :: "limiter \<Rightarrow> string \<Rightarrow> nat \<Rightarrow> hit_store \<Rightarrow> hit_store" where
  "after_response l ip status store =
     (if lim_skipSuccessfulRequests l \<and> status < 400
      then map (\<lambda>(k, hits, resetTime). if k = ip then (k, hits - 1, resetTime) else (k, hits, resetTime)) store
      else store)"

subsection \<open>The limiters wired into the routes\<close>

text \<open>
  The routes module imports \<open>createAdLimiter\<close> and \<open>contactLimiter\<close> from
  \<open>./middleware/rateLimiter\<close> and \<open>loginLimiter\<close> and \<open>registerLimiter\<close> from
  \<open>./auth/security\<close>. (The latter module also exports limiters named \<open>createAdLimiter\<close>
  and \<open>contactLimiter\<close>, with other limits and a body of the single field \<open>error\<close>; the
  routes do not use them.)
\<close>

definition createAdLimiter :: limiter where
  "createAdLimiter =
     \<lparr>lim_windowMs = 10 * 60 * 1000, lim_max = 5, lim_message = None,
      lim_handler = Some (429, JsonBody
        [(''error'', JString ''Rate limit overschreden''),
         (''message'', JString ''Je hebt te vaak geprobeerd te adverteren. Probeer het later opnieuw.''),
         (''retryAfter'', JString ''10 minuten'')]),
      lim_skipSuccessfulRequests = False\<rparr>"

definition contactLimiter :: limiter where
  "contactLimiter =
     \<lparr>lim_windowMs = 5 * 60 * 1000, lim_max = 3,
      lim_message = Some (JsonBody
        [(''error'', JString ''Te veel berichten verzonden''),
         (''message'', JString ''Je hebt te veel berichten verzonden. Wacht even voordat je opnieuw probeert.''),
         (''retryAfter'', JString ''5 minuten'')]),
      lim_handler = Some (429, JsonBody
        [(''error'', JString ''Te veel berichten verzonden''),
         (''message'', JString ''Je hebt te veel berichten verzonden. Wacht even voordat je opnieuw probeert.''),
         (''retryAfter'', JString ''5 minuten''),
         (''limit'', JNumber 3),
         (''windowMs'', JNumber (5 * 60 * 1000))]),
      lim_skipSuccessfulRequests = False\<rparr>"

definition loginLimiter :: limiter where
  "loginLimiter =
     \<lparr>lim_windowMs = 15 * 60 * 1000, lim_max = 5,
      lim_message = Some (JsonBody
        [(''error'', JString ''Te veel loginpogingen. Voor je veiligheid is je IP-adres tijdelijk geblokkeerd. Probeer het over 15 minuten opnieuw.'')]),
      lim_handler = None,
      lim_skipSuccessfulRequests = True\<rparr>"

definition registerLimiter :: limiter where
  "registerLimiter =
     \<lparr>lim_windowMs = 60 * 60 * 1000, lim_max = 3,
      lim_message = Some (JsonBody
        [(''error'', JString ''Te veel registratiepogingen. Probeer het over een uur opnieuw.'')]),
      lim_handler = None,
      lim_skipSuccessfulRequests = False\<rparr>"

text \<open>The names of the fields of a response body.\<close>

definition body_fields :: "response_body \<Rightarrow> string list" where
  "body_fields b = (case b of TextBody _ \<Rightarrow> [] | JsonBody kvs \<Rightarrow> map fst kvs)"

definition response_fields :: "(nat \<times> response_body) option \<Rightarrow> (nat \<times> string list) option" where
  "response_fields r = (case r of None \<Rightarrow> None | Some (code, b) \<Rightarrow> Some (code, body_fields b))"

text \<open>
  A client is over the limit when the store holds, for its address, a window that has not
  ended and already counts \<open>max\<close> hits or more.
\<close>

definition over_limit :: "limiter \<Rightarrow> string \<Rightarrow> int \<Rightarrow> hit_store \<Rightarrow> bool" where
  "over_limit l ip now store =
     (\<exists>hits resetTime. store_lookup store ip = Some (hits, resetTime) \<and> now < resetTime
                         \<and> lim_max l \<le> hits)"

subsection \<open>The locations of a category\<close>

text \<open>The distinct non-empty location values of the approved ads of a category.\<close>

definition category_locations :: "database \<Rightarrow> category \<Rightarrow> string set" where
  "category_locations d cat =
     {l. l \<noteq> [] \<and> (\<exists>a\<in>set (ads d). a_location a = l \<and> a_categoryId a = Some (c_id cat)
                                        \<and> a_status a = Some ''approved'')}"

definition location_facet :: "string \<Rightarrow> string list \<Rightarrow> filter_def" where
  "location_facet slug opts =
     dynamic_filter ''dynamic-location'' slug ''location'' ''Locatie'' ''select'' (Some opts)
       ''Selecteer locatie'' 1"

definition response_filters :: "filters_response \<Rightarrow> filter_def list" where
  "response_filters r = (case r of FiltersOk fs \<Rightarrow> fs | FiltersError _ _ \<Rightarrow> [])"

definition facet_options :: "filter_def \<Rightarrow> string \<times> string list option" where
  "facet_options f = (f_field f, f_options f)"

section \<open>Example data\<close>

text \<open>Concrete calls, tables and requests on which the theorems below are instantiated.\<close>

definition numbered_call :: "nat \<Rightarrow> log_call" where
  "numbered_call i =
     \<lparr>call_env = \<lparr>env_LOG_BLOCKED_ADS = Some ''true'', env_now = 1700000000000 + int i,
                    env_logId = ''blocked'', env_mkdir_fails = False, env_write_fails = None\<rparr>,
      call_ip = ''10.0.0.1'', call_title = ''Gratis gokken'', call_description = ''aanbieding'',
      call_words = [''gokken''], call_userAgent = None\<rparr>"

definition sample_env :: "string option \<Rightarrow> bool \<Rightarrow> log_env" where
  "sample_env flag mkdir_fails =
     \<lparr>env_LOG_BLOCKED_ADS = flag, env_now = 1700000000000, env_logId = ''blocked'',
      env_mkdir_fails = mkdir_fails, env_write_fails = None\<rparr>"

definition sample_ad :: "string \<Rightarrow> int \<Rightarrow> ad" where
  "sample_ad st created =
     \<lparr>a_id = 7, a_title = ''Fiets'', a_description = ''Herenfiets'', a_price = Some 5000,
      a_currency = Some ''EUR'', a_categoryId = Some 1, a_location = ''Paramaribo'',
      a_phone = None, a_email = None, a_images = [], a_status = Some st, a_views = Some 0,
      a_userId = None, a_createdAt = Some created, a_updatedAt = Some created,
      a_expiresAt = Some (created + sixtyDays)\<rparr>"

definition db_with :: "ad list \<Rightarrow> admin_setting list \<Rightarrow> database" where
  "db_with rows settings =
     \<lparr>ads = rows, categories = [\<lparr>c_id = 1, c_name = ''Fietsen'', c_slug = ''fietsen''\<rparr>],
      adminSettings = settings, filterDefinitions = [], users = [''u1''], adReferences = []\<rparr>"




definition sample_created :: "string \<Rightarrow> ad" where
  "sample_created st =
     \<lparr>a_id = 1, a_title = ''Fiets'', a_description = ''sexy'', a_price = Some 5000,
      a_currency = Some ''EUR'', a_categoryId = Some 1, a_location = ''Paramaribo'',
      a_phone = Some ''123'', a_email = Some ''a@b.sr'', a_images = [], a_status = Some st,
      a_views = Some 0, a_userId = Some ''u1'', a_createdAt = Some 1700000000000,
      a_updatedAt = Some 1700000000000, a_expiresAt = Some (1700000000000 + sixtyDays)\<rparr>"

definition car_ad :: "int \<Rightarrow> string \<Rightarrow> string \<Rightarrow> string \<Rightarrow> int option \<Rightarrow> ad" where
  "car_ad i title description location price =
     \<lparr>a_id = i, a_title = title, a_description = description, a_price = price,
      a_currency = Some ''EUR'', a_categoryId = Some 3, a_location = location,
      a_phone = None, a_email = None, a_images = [], a_status = Some ''approved'', a_views = Some 0,
      a_userId = None, a_createdAt = Some 1700000000000, a_updatedAt = Some 1700000000000,
      a_expiresAt = Some (1700000000000 + sixtyDays)\<rparr>"

definition bmw_ad :: "string \<Rightarrow> int option \<Rightarrow> ad" where
  "bmw_ad location price = car_ad 1 ''Auto te koop'' ''BMW diesel automaat'' location price"

definition toyota_ad :: "string \<Rightarrow> int option \<Rightarrow> ad" where
  "toyota_ad location price = car_ad 2 ''Toyota Corolla'' ''Benzine, handgeschakeld'' location price"

definition autos_category :: category where
  "autos_category = \<lparr>c_id = 3, c_name = ''Autos'', c_slug = ''autos''\<rparr>"

definition autos_db :: "ad list \<Rightarrow> database" where
  "autos_db rows =
     \<lparr>ads = rows, categories = [autos_category], adminSettings = [], filterDefinitions = [],
      users = [], adReferences = []\<rparr>"

section \<open>Evaluating character codes\<close>

lemma char_of_nat_eq_iff: "(char_of (n::nat) = c) = (n mod 256 = of_char c)"
  by (metis of_char_of char_of_char)

lemma eq_char_of_nat_iff: "(c = char_of (n::nat)) = (of_char c = n mod 256)"
  by (metis of_char_of char_of_char)

section \<open>Properties of the blacklist filter\<close>

subsection \<open>The pattern of a plain word\<close>

lemma parse_plain:
  "plain_word p \<Longrightarrow>
     parse_pattern (p @ rest) prec cur fin =
     parse_pattern rest (if p = [] then prec else FreshAtom) (rev (literal_terms p) @ cur) fin"
proof (induction p arbitrary: prec cur)
  case Nil
  then show ?case by (simp add: literal_terms_def)
next
  case (Cons c p)
  then have c: "classify c = Ordinary" and p: "plain_word p" by (simp_all add: plain_word_def)
  show ?case using Cons.IH [OF p] c by (simp add: literal_terms_def)
qed

lemma classify_backslash: "classify (CHR 0x5C) = Backslash"
  by (simp add: classify_def)

lemma parse_word_pattern:
  assumes "plain_word (js_toLowerCase rt w)"
  shows "parse_pattern (word_pattern rt w) NoAtom [] [] =
           Pattern [Assert WordBoundary # literal_terms (js_toLowerCase rt w) @ [Assert WordBoundary]]"
proof -
  let ?p = "js_toLowerCase rt w"
  have "parse_pattern (word_pattern rt w) NoAtom [] [] =
          parse_pattern (?p @ [CHR 0x5C, CHR ''b'']) NoAtom [Assert WordBoundary] []"
    by (simp add: word_pattern_def classify_backslash)
  also have "\<dots> = parse_pattern [CHR 0x5C, CHR ''b''] (if ?p = [] then NoAtom else FreshAtom)
                     (rev (literal_terms ?p) @ [Assert WordBoundary]) []"
    using assms by (rule parse_plain)
  also have "\<dots> = Pattern [Assert WordBoundary # literal_terms ?p @ [Assert WordBoundary]]"
    by (simp add: classify_backslash)
  finally show ?thesis .
qed

subsection \<open>The matcher decides whole-word containment\<close>

lemma match_lits:
  "match_terms rt (literal_terms w @ ts) prev rest \<longleftrightarrow>
     (\<exists>mid post. rest = mid @ post \<and> map (js_canonicalize rt) mid = map (js_canonicalize rt) w
        \<and> match_terms rt ts (prev_of prev mid) post)"
proof (induction w arbitrary: prev rest)
  case Nil
  then show ?case by (auto simp: literal_terms_def prev_of_def)
next
  case (Cons c w)
  note IH = Cons.IH
  show ?case
  proof (cases rest)
    case Nil
    then show ?thesis by (auto simp: literal_terms_def)
  next
    case rest: (Cons d rest')
    show ?thesis (is "?L \<longleftrightarrow> ?R")
    proof
      assume ?L
      then have cd: "js_canonicalize rt c = js_canonicalize rt d"
        and "match_terms rt (literal_terms w @ ts) (Some d) rest'"
        using rest by (simp_all add: literal_terms_def)
      then obtain mid post where mp: "rest' = mid @ post"
        "map (js_canonicalize rt) mid = map (js_canonicalize rt) w"
        "match_terms rt ts (prev_of (Some d) mid) post"
        using IH by blast
      have "prev_of (Some d) mid = prev_of prev (d # mid)" by (simp add: prev_of_def)
      with mp cd rest have "rest = (d # mid) @ post
          \<and> map (js_canonicalize rt) (d # mid) = map (js_canonicalize rt) (c # w)
          \<and> match_terms rt ts (prev_of prev (d # mid)) post"
        by simp
      then show ?R by blast
    next
      assume ?R
      then obtain mid post where m: "rest = mid @ post"
        "map (js_canonicalize rt) mid = map (js_canonicalize rt) (c # w)"
        "match_terms rt ts (prev_of prev mid) post" by blast
      from m(2) obtain e mid' where mid: "mid = e # mid'"
        by (cases mid) simp_all
      from m(1) mid rest have e: "e = d" and r: "rest' = mid' @ post" by simp_all
      from m(2) mid e have cd: "js_canonicalize rt c = js_canonicalize rt d"
        and u: "map (js_canonicalize rt) mid' = map (js_canonicalize rt) w"
        by simp_all
      have "prev_of prev mid = prev_of (Some d) mid'" using mid e by (simp add: prev_of_def)
      with m(3) have "match_terms rt ts (prev_of (Some d) mid') post" by simp
      with r u have "match_terms rt (literal_terms w @ ts) (Some d) rest'" using IH by blast
      with cd rest show ?L by (simp add: literal_terms_def)
    qed
  qed
qed

lemma test_from_split:
  "test_from rt alts prev s \<longleftrightarrow>
     (\<exists>pre post. s = pre @ post \<and> match_here rt alts (prev_of prev pre) post)"
proof (induction s arbitrary: prev)
  case Nil
  then show ?case by (simp add: prev_of_def)
next
  case (Cons d s)
  show ?case (is "?L \<longleftrightarrow> ?R")
  proof
    assume ?L
    then consider "match_here rt alts prev (d # s)" | "test_from rt alts (Some d) s" by auto
    then show ?R
    proof cases
      case 1
      then have "d # s = [] @ (d # s) \<and> match_here rt alts (prev_of prev []) (d # s)"
        by (simp add: prev_of_def)
      then show ?thesis by blast
    next
      case 2
      then obtain pre post where "s = pre @ post" "match_here rt alts (prev_of (Some d) pre) post"
        using Cons.IH by blast
      then have "d # s = (d # pre) @ post \<and> match_here rt alts (prev_of prev (d # pre)) post"
        by (auto simp: prev_of_def)
      then show ?thesis by blast
    qed
  next
    assume ?R
    then obtain pre post where p: "d # s = pre @ post" "match_here rt alts (prev_of prev pre) post"
      by blast
    show ?L
    proof (cases pre)
      case Nil
      with p show ?thesis by (auto simp: prev_of_def)
    next
      case (Cons e pre')
      with p have "s = pre' @ post \<and> match_here rt alts (prev_of (Some d) pre') post"
        by (auto simp: prev_of_def)
      then have "test_from rt alts (Some d) s" using Cons.IH by blast
      then show ?thesis by simp
    qed
  qed
qed

lemma at_boundary_between:
  "at_boundary (prev_of None l) r = boundary_between l r"
  by (auto simp: at_boundary_def boundary_between_def prev_of_def split: list.splits)

lemma prev_of_append: "prev_of (prev_of p xs) ys = prev_of p (xs @ ys)"
  by (auto simp: prev_of_def)

lemma test_whole_word:
  "test_from rt [Assert WordBoundary # literal_terms p @ [Assert WordBoundary]] None content \<longleftrightarrow>
     (\<exists>pre mid post. content = pre @ mid @ post
        \<and> map (js_canonicalize rt) mid = map (js_canonicalize rt) p
        \<and> boundary_between pre (mid @ post) \<and> boundary_between (pre @ mid) post)"
proof -
  have "test_from rt [Assert WordBoundary # literal_terms p @ [Assert WordBoundary]] None content \<longleftrightarrow>
     (\<exists>pre post. content = pre @ post \<and> at_boundary (prev_of None pre) post \<and>
        (\<exists>mid post'. post = mid @ post' \<and> map (js_canonicalize rt) mid = map (js_canonicalize rt) p \<and>
            at_boundary (prev_of (prev_of None pre) mid) post'))"
    unfolding test_from_split by (simp add: match_here_def match_lits)
  also have "\<dots> \<longleftrightarrow> (\<exists>pre mid post. content = pre @ mid @ post
        \<and> map (js_canonicalize rt) mid = map (js_canonicalize rt) p
        \<and> boundary_between pre (mid @ post) \<and> boundary_between (pre @ mid) post)"
    unfolding prev_of_append at_boundary_between
    by (metis append.assoc)
  finally show ?thesis .
qed

lemma regexp_test_plain:
  assumes "plain_word (js_toLowerCase rt w)"
  shows "regexp_test rt (word_pattern rt w) content = Inr (contains_whole_word rt content w)"
  unfolding regexp_test_def parse_word_pattern [OF assms] contains_whole_word_def
  by (simp add: test_whole_word)

lemma findBlockedWords_plain:
  "\<forall>w\<in>set bl. plain_word (js_toLowerCase rt w) \<Longrightarrow>
     findBlockedWords rt bl content = Inr (filter (contains_whole_word rt content) bl)"
proof (induction bl)
  case Nil
  then show ?case by simp
next
  case (Cons w bl)
  then have pw: "regexp_test rt (word_pattern rt w) content = Inr (contains_whole_word rt content w)"
    by (simp add: regexp_test_plain)
  from Cons have "findBlockedWords rt bl content = Inr (filter (contains_whole_word rt content) bl)"
    by simp
  with pw show ?case by simp
qed

lemma findBlockedWords_append_plain:
  "\<forall>w\<in>set bl. plain_word (js_toLowerCase rt w) \<Longrightarrow>
     findBlockedWords rt (bl @ ws) content =
       (case findBlockedWords rt ws content of
          Inl e \<Rightarrow> Inl e
        | Inr found \<Rightarrow> Inr (filter (contains_whole_word rt content) bl @ found))"
proof (induction bl)
  case Nil
  then show ?case by (simp split: sum.splits)
next
  case (Cons x xs)
  then show ?case by (simp add: regexp_test_plain split: sum.splits)
qed

lemma count_list_distinct: "distinct xs \<Longrightarrow> x \<in> set xs \<Longrightarrow> count_list xs x = 1"
  by (induction xs) (auto simp: count_list_0_iff)

lemma count_list_filter:
  "count_list (filter P xs) x = (if P x then count_list xs x else 0)"
  by (induction xs) auto

lemma count_list_remove1_same:
  "count_list (remove1 x xs) x = count_list xs x - 1"
  by (induction xs) auto

lemma plain_remove1: "\<forall>x\<in>set bl. P x \<Longrightarrow> \<forall>x\<in>set (remove1 y bl). P x"
  by (meson notin_set_remove1)

subsection \<open>Evaluation of the examples\<close>

lemma latin1_runtime_simps:
  "js_toLowerCase latin1_runtime = toLowerCase"
  "js_canonicalize latin1_runtime = canonical_char"
  by (simp_all add: latin1_runtime_def)

lemma blacklistWords_lower: "map toLowerCase blacklistWords = blacklistWords"
  by (simp add: blacklistWords_def toLowerCase_def lower_char_def char_of_nat_eq_iff)

lemma blacklistWords_plain: "\<forall>w\<in>set blacklistWords. plain_word (js_toLowerCase latin1_runtime w)"
proof -
  have "\<forall>w\<in>set (map toLowerCase blacklistWords). plain_word w"
    unfolding blacklistWords_lower by (simp add: blacklistWords_def plain_word_def classify_def)
  then show ?thesis by (simp add: latin1_runtime_simps)
qed

lemma whole_word_latin1:
  "contains_whole_word latin1_runtime content w \<longleftrightarrow>
     test_from latin1_runtime
       [Assert WordBoundary # literal_terms (toLowerCase w) @ [Assert WordBoundary]] None content"
  unfolding test_whole_word contains_whole_word_def by (simp add: latin1_runtime_simps)

lemmas latin1_eval =
  literal_terms_def match_here_def latin1_runtime_simps toLowerCase_def lower_char_def canonical_char_def
  at_boundary_def is_word_char_def char_of_nat_eq_iff eq_char_of_nat_iff

lemma no_whole_word_in_sample:
  "\<forall>w\<in>set blacklistWords.
     \<not> contains_whole_word latin1_runtime (js_toLowerCase latin1_runtime (''Fiets'' @ '' '' @ ''sexy'')) w"
  unfolding whole_word_latin1
  by (simp add: blacklistWords_def latin1_eval)


subsection \<open>Duplicates of a plain word\<close>

text \<open>
  \<open>addToBlacklist\<close> appends without deduplication and \<open>removeFromBlacklist\<close> removes the
  first occurrence only. For a blacklist and a word whose lower-cased forms are plain:
  after the word is added twice it occurs two more times in the blacklist and after one
  removal still one more time than before; on content that contains it as a whole word
  \<open>checkAdContent\<close> answers \<open>allowed = false\<close> in both states and reports the word that many
  times.
\<close>

lemma duplicate_plain_entry_outlives_one_removal:
  assumes bl: "\<forall>x\<in>set bl. plain_word (js_toLowerCase rt x)"
    and w: "plain_word (js_toLowerCase rt (js_toLowerCase rt w))"
    and hit: "contains_whole_word rt (js_toLowerCase rt (title @ '' '' @ description)) (js_toLowerCase rt w)"
  shows "count_list (addToBlacklist rt [w] (addToBlacklist rt [w] bl)) (js_toLowerCase rt w)
           = count_list bl (js_toLowerCase rt w) + 2
       \<and> count_list (removeFromBlacklist rt [w] (addToBlacklist rt [w] (addToBlacklist rt [w] bl)))
             (js_toLowerCase rt w)
           = count_list bl (js_toLowerCase rt w) + 1
       \<and> (\<exists>r. checkAdContent rt (addToBlacklist rt [w] (addToBlacklist rt [w] bl)) title description = Inr r
              \<and> \<not> allowed r
              \<and> count_list (blockedWords r) (js_toLowerCase rt w) = count_list bl (js_toLowerCase rt w) + 2)
       \<and> (\<exists>r. checkAdContent rt (removeFromBlacklist rt [w] (addToBlacklist rt [w] (addToBlacklist rt [w] bl)))
                   title description = Inr r
              \<and> \<not> allowed r
              \<and> count_list (blockedWords r) (js_toLowerCase rt w) = count_list bl (js_toLowerCase rt w) + 1)"
proof -
  let ?c = "js_toLowerCase rt (title @ '' '' @ description)"
  let ?lw = "js_toLowerCase rt w"
  let ?bl2 = "addToBlacklist rt [w] (addToBlacklist rt [w] bl)"
  let ?bl3 = "removeFromBlacklist rt [w] ?bl2"
  have bl2: "?bl2 = bl @ [?lw, ?lw]" by (simp add: addToBlacklist_def)
  have bl3: "?bl3 = remove1 ?lw (bl @ [?lw, ?lw])" by (simp add: removeFromBlacklist_def bl2)
  have c2: "count_list ?bl2 ?lw = count_list bl ?lw + 2" by (simp add: bl2)
  have c3: "count_list ?bl3 ?lw = count_list bl ?lw + 1"
    unfolding bl3 count_list_remove1_same by simp
  have p2: "\<forall>x\<in>set ?bl2. plain_word (js_toLowerCase rt x)" using bl w by (simp add: bl2)
  have p3: "\<forall>x\<in>set ?bl3. plain_word (js_toLowerCase rt x)"
    unfolding bl3 using p2 [unfolded bl2] by (rule plain_remove1)
  have f2: "findBlockedWords rt ?bl2 ?c = Inr (filter (contains_whole_word rt ?c) ?bl2)"
    using p2 by (rule findBlockedWords_plain)
  have f3: "findBlockedWords rt ?bl3 ?c = Inr (filter (contains_whole_word rt ?c) ?bl3)"
    using p3 by (rule findBlockedWords_plain)
  have n2: "count_list (filter (contains_whole_word rt ?c) ?bl2) ?lw = count_list bl ?lw + 2"
    using hit c2 by (simp add: count_list_filter)
  have n3: "count_list (filter (contains_whole_word rt ?c) ?bl3) ?lw = count_list bl ?lw + 1"
    using hit c3 by (simp add: count_list_filter)
  have ne2: "filter (contains_whole_word rt ?c) ?bl2 \<noteq> []"
    using n2 by (metis add_2_eq_Suc' count_list.simps(1) nat.distinct(1))
  have ne3: "filter (contains_whole_word rt ?c) ?bl3 \<noteq> []"
    using n3 by (metis Suc_eq_plus1 count_list.simps(1) nat.distinct(1))
  have r2: "\<exists>r. checkAdContent rt ?bl2 title description = Inr r \<and> \<not> allowed r
              \<and> count_list (blockedWords r) ?lw = count_list bl ?lw + 2"
    using f2 n2 ne2 by (simp add: checkAdContent_def)
  have r3: "\<exists>r. checkAdContent rt ?bl3 title description = Inr r \<and> \<not> allowed r
              \<and> count_list (blockedWords r) ?lw = count_list bl ?lw + 1"
    using f3 n3 ne3 by (simp add: checkAdContent_def)
  from c2 c3 r2 r3 show ?thesis by blast
qed

text \<open>
  Claim C1, as amended. For every JavaScript runtime, every title and description and
  every blacklist whose lower-cased entries are plain words (no regular-expression syntax
  character, as in the seeded list): if the lower-cased concatenation of title and
  description contains at least one blacklist entry as a whole word (case-insensitive,
  word-boundary anchored), then \<open>checkAdContent\<close> returns \<open>allowed = false\<close> and
  \<open>blockedWords\<close> is the list of the matching entries in blacklist order, so that a word
  is reported as many times as it occurs in the blacklist: exactly once when the blacklist
  has no duplicates, as the seeded list. If the content contains no blacklist entry as a
  whole word, \<open>checkAdContent\<close> returns \<open>allowed = true\<close> with an empty \<open>blockedWords\<close>
  list.
\<close>

theorem checkAdContent_reports_whole_word_matches:
  assumes "\<forall>w\<in>set bl. plain_word (js_toLowerCase rt w)"
  shows "((\<exists>w\<in>set bl. contains_whole_word rt (js_toLowerCase rt (title @ '' '' @ description)) w) \<longrightarrow>
           (\<exists>r. checkAdContent rt bl title description = Inr r \<and> \<not> allowed r
              \<and> blockedWords r
                  = filter (contains_whole_word rt (js_toLowerCase rt (title @ '' '' @ description))) bl
              \<and> (\<forall>w. count_list (blockedWords r) w =
                     (if contains_whole_word rt (js_toLowerCase rt (title @ '' '' @ description)) w
                      then count_list bl w else 0))
              \<and> (distinct bl \<longrightarrow>
                   (\<forall>w\<in>set bl. contains_whole_word rt (js_toLowerCase rt (title @ '' '' @ description)) w
                        \<longrightarrow> count_list (blockedWords r) w = 1))))
       \<and> ((\<forall>w\<in>set bl. \<not> contains_whole_word rt (js_toLowerCase rt (title @ '' '' @ description)) w) \<longrightarrow>
           checkAdContent rt bl title description
             = Inr \<lparr>allowed = True, blockedWords = [], reason = None\<rparr>)"
proof -
  let ?c = "js_toLowerCase rt (title @ '' '' @ description)"
  let ?hits = "filter (contains_whole_word rt ?c) bl"
  have f: "findBlockedWords rt bl ?c = Inr ?hits"
    using assms by (rule findBlockedWords_plain)
  have one: "distinct bl \<Longrightarrow> w \<in> set bl \<Longrightarrow> contains_whole_word rt ?c w \<Longrightarrow> count_list ?hits w = 1" for w
    by (simp add: count_list_filter count_list_distinct)
  have pos: "(\<exists>w\<in>set bl. contains_whole_word rt ?c w) \<Longrightarrow> ?hits \<noteq> []"
    by (auto simp: filter_empty_conv)
  have neg: "(\<forall>w\<in>set bl. \<not> contains_whole_word rt ?c w) \<Longrightarrow> ?hits = []"
    by (simp add: filter_empty_conv)
  show ?thesis
  proof (intro conjI impI)
    assume "\<exists>w\<in>set bl. contains_whole_word rt ?c w"
    then have "?hits \<noteq> []" by (rule pos)
    then show "\<exists>r. checkAdContent rt bl title description = Inr r \<and> \<not> allowed r
              \<and> blockedWords r = ?hits
              \<and> (\<forall>w. count_list (blockedWords r) w =
                     (if contains_whole_word rt ?c w then count_list bl w else 0))
              \<and> (distinct bl \<longrightarrow> (\<forall>w\<in>set bl. contains_whole_word rt ?c w
                        \<longrightarrow> count_list (blockedWords r) w = 1))"
      using f one by (simp add: checkAdContent_def count_list_filter)
  next
    assume "\<forall>w\<in>set bl. \<not> contains_whole_word rt ?c w"
    then have "?hits = []" by (rule neg)
    then show "checkAdContent rt bl title description
             = Inr \<lparr>allowed = True, blockedWords = [], reason = None\<rparr>"
      using f by (simp add: checkAdContent_def)
  qed
qed

theorem checkAdContent_reports_whole_word_matches_witness:
  "(\<exists>r. checkAdContent latin1_runtime blacklistWords ''Gratis gokken aanbieding'' ''Bel nu'' = Inr r
       \<and> \<not> allowed r \<and> blockedWords r = [''gokken''] \<and> count_list (blockedWords r) ''gokken'' = 1)
   \<and> checkAdContent latin1_runtime blacklistWords ''Fiets'' ''sexy''
       = Inr \<lparr>allowed = True, blockedWords = [], reason = None\<rparr>"
proof -
  have d: "distinct blacklistWords" by (simp add: blacklistWords_def)
  have g: "''gokken'' \<in> set blacklistWords" by (simp add: blacklistWords_def)
  have hits: "filter (contains_whole_word latin1_runtime
                 (js_toLowerCase latin1_runtime (''Gratis gokken aanbieding'' @ '' '' @ ''Bel nu'')))
               blacklistWords = [''gokken'']"
    unfolding whole_word_latin1 by (simp add: blacklistWords_def latin1_eval)
  then have "''gokken'' \<in> set (filter (contains_whole_word latin1_runtime
                 (js_toLowerCase latin1_runtime (''Gratis gokken aanbieding'' @ '' '' @ ''Bel nu'')))
               blacklistWords)"
    by simp
  then have hit: "contains_whole_word latin1_runtime
      (js_toLowerCase latin1_runtime (''Gratis gokken aanbieding'' @ '' '' @ ''Bel nu'')) ''gokken''"
    by simp
  from checkAdContent_reports_whole_word_matches
         [OF blacklistWords_plain, of "''Gratis gokken aanbieding''" "''Bel nu''"] hit g d
  have a: "\<exists>r. checkAdContent latin1_runtime blacklistWords ''Gratis gokken aanbieding'' ''Bel nu'' = Inr r
       \<and> \<not> allowed r \<and> blockedWords r = [''gokken''] \<and> count_list (blockedWords r) ''gokken'' = 1"
    unfolding hits by blast
  from checkAdContent_reports_whole_word_matches [OF blacklistWords_plain, of "''Fiets''" "''sexy''"]
    no_whole_word_in_sample
  have b: "checkAdContent latin1_runtime blacklistWords ''Fiets'' ''sexy''
       = Inr \<lparr>allowed = True, blockedWords = [], reason = None\<rparr>"
    by blast
  from a b show ?thesis by blast
qed

text \<open>
  Claim C1 as stated fails once the blacklist holds a word twice: after
  \<open>addToBlacklist(["gokken"])\<close> on the seeded list, which already has the entry, the word
  is reported twice.
\<close>

theorem checkAdContent_duplicate_counterexample:
  "checkAdContent latin1_runtime (addToBlacklist latin1_runtime [''gokken''] blacklistWords)
       ''Gratis gokken aanbieding'' []
     = Inr \<lparr>allowed = False, blockedWords = [''gokken'', ''gokken''],
              reason = Some ''Advertentie bevat verboden woorden: gokken, gokken''\<rparr>"
proof -
  have a: "addToBlacklist latin1_runtime [''gokken''] blacklistWords = blacklistWords @ [''gokken'']"
    by (simp add: addToBlacklist_def latin1_runtime_simps toLowerCase_def lower_char_def)
  have "plain_word (js_toLowerCase latin1_runtime ''gokken'')"
    by (simp add: latin1_runtime_simps toLowerCase_def lower_char_def plain_word_def classify_def)
  then have p: "\<forall>w\<in>set (blacklistWords @ [''gokken'']). plain_word (js_toLowerCase latin1_runtime w)"
    using blacklistWords_plain by simp
  have "filter (contains_whole_word latin1_runtime
                  (js_toLowerCase latin1_runtime (''Gratis gokken aanbieding'' @ '' '' @ [])))
          (blacklistWords @ [''gokken'']) = [''gokken'', ''gokken'']"
    unfolding whole_word_latin1 by (simp add: blacklistWords_def latin1_eval)
  with findBlockedWords_plain [OF p]
  have "findBlockedWords latin1_runtime (blacklistWords @ [''gokken''])
          (js_toLowerCase latin1_runtime (''Gratis gokken aanbieding'' @ '' '' @ []))
        = Inr [''gokken'', ''gokken'']"
    by simp
  then show ?thesis unfolding a by (simp add: checkAdContent_def)
qed

text \<open>
  Claim C10 fails for a word with a character of the pattern syntax, because the entry is
  interpolated into the regular expression unescaped. \<open>addToBlacklist(["a+b"])\<close> twice and
  \<open>removeFromBlacklist(["a+b"])\<close> once on the seeded list leave the entry \<open>a+b\<close> in the
  blacklist, and the content \<open>a+b\<close> contains that word as a whole word; yet
  \<open>checkAdContent("a+b", "")\<close> returns \<open>allowed = true\<close> with no blocked word, both while the
  duplicate is in the list and after the removal, since the expression \<^verbatim>\<open>/\ba+b\b/i\<close>
  matches \<open>ab\<close>, \<open>aab\<close>, ... and not the text \<open>a+b\<close>. For the word \<open>c++\<close> the constructor
  of the expression throws a SyntaxError, so that \<open>checkAdContent\<close> returns nothing at all.
\<close>

theorem duplicate_entry_with_syntax_character_not_blocked:
  "addToBlacklist latin1_runtime [''a+b''] (addToBlacklist latin1_runtime [''a+b''] blacklistWords)
     = blacklistWords @ [''a+b'', ''a+b'']
   \<and> removeFromBlacklist latin1_runtime [''a+b'']
       (addToBlacklist latin1_runtime [''a+b''] (addToBlacklist latin1_runtime [''a+b''] blacklistWords))
     = blacklistWords @ [''a+b'']
   \<and> contains_whole_word latin1_runtime (js_toLowerCase latin1_runtime (''a+b'' @ '' '' @ [])) ''a+b''
   \<and> checkAdContent latin1_runtime (blacklistWords @ [''a+b'', ''a+b'']) ''a+b'' []
       = Inr \<lparr>allowed = True, blockedWords = [], reason = None\<rparr>
   \<and> checkAdContent latin1_runtime (blacklistWords @ [''a+b'']) ''a+b'' []
       = Inr \<lparr>allowed = True, blockedWords = [], reason = None\<rparr>
   \<and> checkAdContent latin1_runtime (blacklistWords @ [''c++'']) ''c++'' [] = Inl SyntaxError"
proof -
  let ?c = "js_toLowerCase latin1_runtime (''a+b'' @ '' '' @ [])"
  have lw: "js_toLowerCase latin1_runtime ''a+b'' = ''a+b''"
    by (simp add: latin1_runtime_simps toLowerCase_def lower_char_def)
  have c: "?c = ''a+b ''"
    by (simp add: latin1_runtime_simps toLowerCase_def lower_char_def)
  have a2: "addToBlacklist latin1_runtime [''a+b''] (addToBlacklist latin1_runtime [''a+b''] blacklistWords)
     = blacklistWords @ [''a+b'', ''a+b'']"
    by (simp add: addToBlacklist_def lw)
  have r: "removeFromBlacklist latin1_runtime [''a+b''] (blacklistWords @ [''a+b'', ''a+b''])
     = blacklistWords @ [''a+b'']"
    by (simp add: removeFromBlacklist_def lw remove1_append blacklistWords_def)
  have "''a+b '' = [] @ ''a+b'' @ '' ''
      \<and> map (js_canonicalize latin1_runtime) ''a+b''
          = map (js_canonicalize latin1_runtime) (js_toLowerCase latin1_runtime ''a+b'')
      \<and> boundary_between [] (''a+b'' @ '' '') \<and> boundary_between ([] @ ''a+b'') '' ''"
    unfolding lw by (simp add: boundary_between_def is_word_char_def)
  then have w: "contains_whole_word latin1_runtime ?c ''a+b''"
    unfolding c contains_whole_word_def by blast
  have seeded: "findBlockedWords latin1_runtime blacklistWords content
          = Inr (filter (contains_whole_word latin1_runtime content) blacklistWords)" for content
    using blacklistWords_plain by (rule findBlockedWords_plain)
  note fb_append = findBlockedWords_append_plain [OF blacklistWords_plain]
  have none1: "filter (contains_whole_word latin1_runtime ''a+b '') blacklistWords = []"
    unfolding whole_word_latin1 by (simp add: blacklistWords_def latin1_eval)
  have t1: "regexp_test latin1_runtime (word_pattern latin1_runtime ''a+b'') ''a+b '' = Inr False"
    by (simp add: regexp_test_def word_pattern_def classify_def quantifier_of_def latin1_eval)
  have t2: "regexp_test latin1_runtime (word_pattern latin1_runtime ''c++'') ''c++ '' = Inl SyntaxError"
    by (simp add: regexp_test_def word_pattern_def classify_def quantifier_of_def latin1_eval)
  have k2: "checkAdContent latin1_runtime (blacklistWords @ [''a+b'', ''a+b'']) ''a+b'' []
       = Inr \<lparr>allowed = True, blockedWords = [], reason = None\<rparr>"
    unfolding checkAdContent_def c Let_def fb_append by (simp add: none1 t1)
  have k1: "checkAdContent latin1_runtime (blacklistWords @ [''a+b'']) ''a+b'' []
       = Inr \<lparr>allowed = True, blockedWords = [], reason = None\<rparr>"
    unfolding checkAdContent_def c Let_def fb_append by (simp add: none1 t1)
  have c2: "js_toLowerCase latin1_runtime (''c++'' @ '' '' @ []) = ''c++ ''"
    by (simp add: latin1_runtime_simps toLowerCase_def lower_char_def)
  have k3: "checkAdContent latin1_runtime (blacklistWords @ [''c++'']) ''c++'' [] = Inl SyntaxError"
    unfolding checkAdContent_def c2 Let_def fb_append by (simp add: t2)
  from a2 r w k2 k1 k3 show ?thesis unfolding a2 by simp
qed

section \<open>Properties of the blocked-ad logger\<close>

lemma readExistingLogs_written [simp]:
  "readExistingLogs (Some (Json (JEntries es))) = JEntries es"
  by (simp add: readExistingLogs_def fs_readFile_def JSON_parse_def)

lemma log_one_ok:
  assumes "call_succeeds c" "readExistingLogs file = JEntries es"
  shows "log_one file c = Some (Json (JEntries (limitLogEntries (call_entry c # es))))"
  using assms
  by (simp add: log_one_def logBlockedAd_def logBlockedAd_try_def call_succeeds_def spread_def
      writeLogsToFile_def call_entry_def Let_def)

lemma log_all_snoc: "log_all (cs @ [c]) file = log_one (log_all cs file) c"
  by (simp add: log_all_def)

lemma log_all_below_limit:
  assumes "\<forall>c\<in>set cs. call_succeeds c" "readExistingLogs file = JEntries []"
    "length cs \<le> MAX_LOG_ENTRIES"
  shows "readExistingLogs (log_all cs file) = JEntries (rev (map call_entry cs))"
  using assms
proof (induction cs rule: rev_induct)
  case Nil
  then show ?case by (simp add: log_all_def)
next
  case (snoc c cs)
  then have prev: "readExistingLogs (log_all cs file) = JEntries (rev (map call_entry cs))"
    by simp
  from snoc.prems have c: "call_succeeds c" by simp
  have len: "length (call_entry c # rev (map call_entry cs)) \<le> MAX_LOG_ENTRIES"
    using snoc.prems by simp
  show ?case
    unfolding log_all_snoc log_one_ok [OF c prev]
    using len by (simp add: limitLogEntries_def)
qed

lemma sort_key_take_drop_last:
  assumes "length xs = Suc n"
  shows "\<exists>old. mset xs = mset (take n (sort_key f xs)) + {#old#}
            \<and> (\<forall>e\<in>set (take n (sort_key f xs)). f e \<le> f old)"
proof -
  let ?ys = "sort_key f xs"
  have len: "length ?ys = Suc n" using assms by simp
  then have ne: "?ys \<noteq> []" by (metis length_0_conv Zero_not_Suc)
  have split: "?ys = take n ?ys @ [last ?ys]"
    using len ne by (metis append_butlast_last_id butlast_conv_take diff_Suc_1)
  have srt: "sorted (map f ?ys)" by (rule sorted_sort_key)
  have "mset xs = mset ?ys" by simp
  also have "\<dots> = mset (take n ?ys @ [last ?ys])" using split by simp
  finally have m: "mset xs = mset (take n ?ys) + {#last ?ys#}" by simp
  have "sorted (map f (take n ?ys) @ [f (last ?ys)])"
    using srt split by (metis list.simps(8,9) map_append)
  then have "\<forall>e\<in>set (take n ?ys). f e \<le> f (last ?ys)"
    by (auto simp: sorted_append)
  with m show ?thesis by blast
qed

text \<open>
  Claim C3. Starting from an empty log (no file, an unreadable file or an empty array), after
  1001 submissions are logged in sequence, with logging enabled and every file operation
  succeeding, the log file holds exactly 1000 entries; they are the 1001 logged entries
  without one evicted entry, whose timestamp is less than or equal to every retained
  timestamp (the oldest is evicted), and they are stored newest first.
\<close>

theorem log_keeps_most_recent_1000:
  assumes len: "length calls = 1001"
    and ok: "\<forall>c\<in>set calls. call_succeeds c"
    and empty: "readExistingLogs file = JEntries []"
  shows "\<exists>logs evicted.
           log_all calls file = Some (Json (JEntries logs))
         \<and> length logs = 1000
         \<and> mset (map call_entry calls) = mset logs + {#evicted#}
         \<and> (\<forall>e\<in>set logs. e_timestamp evicted \<le> e_timestamp e)
         \<and> sorted (rev (map e_timestamp logs))"
proof -
  from len obtain cs c where calls: "calls = cs @ [c]" and lcs: "length cs = 1000"
    by (metis (no_types) One_nat_def Suc_eq_plus1 add_diff_cancel_right' length_0_conv length_butlast
        nat.distinct(1) numeral_plus_one semiring_norm(5,8) snoc_eq_iff_butlast)
  let ?es = "call_entry c # rev (map call_entry cs)"
  let ?f = "\<lambda>e. - e_timestamp e"
  have prev: "readExistingLogs (log_all cs file) = JEntries (rev (map call_entry cs))"
    using ok empty lcs calls by (intro log_all_below_limit) (simp_all add: MAX_LOG_ENTRIES_def)
  have c: "call_succeeds c" using ok calls by simp
  have les: "length ?es = Suc 1000" using lcs by simp
  have lim: "limitLogEntries ?es = take 1000 (sort_key ?f ?es)"
    using les by (simp add: limitLogEntries_def MAX_LOG_ENTRIES_def)
  have final: "log_all calls file = Some (Json (JEntries (take 1000 (sort_key ?f ?es))))"
    unfolding calls log_all_snoc log_one_ok [OF c prev] lim ..
  from sort_key_take_drop_last [OF les, of ?f] obtain old where
    old: "mset ?es = mset (take 1000 (sort_key ?f ?es)) + {#old#}"
         "\<forall>e\<in>set (take 1000 (sort_key ?f ?es)). ?f e \<le> ?f old" by blast
  have m: "mset (map call_entry calls) = mset ?es" by (simp add: calls)
  have l: "length (take 1000 (sort_key ?f ?es)) = 1000" using les by simp
  have "sorted (map ?f (sort_key ?f ?es))" by (rule sorted_sort_key)
  then have "sorted (map ?f (take 1000 (sort_key ?f ?es)))"
    by (metis sorted_wrt_take take_map)
  then have s: "sorted (rev (map e_timestamp (take 1000 (sort_key ?f ?es))))"
    by (simp add: sorted_wrt_rev sorted_wrt_map sorted_map)
  from final l m old s show ?thesis by (intro exI [of _ "take 1000 (sort_key ?f ?es)"] exI [of _ old]) auto
qed

theorem log_keeps_most_recent_1000_witness:
  "\<exists>logs evicted.
       log_all (map numbered_call [0..<1001]) None = Some (Json (JEntries logs))
     \<and> length logs = 1000
     \<and> mset (map call_entry (map numbered_call [0..<1001])) = mset logs + {#evicted#}
     \<and> (\<forall>e\<in>set logs. e_timestamp evicted \<le> e_timestamp e)
     \<and> sorted (rev (map e_timestamp logs))"
proof -
  have len: "length (map numbered_call [0..<1001]) = 1001" by simp
  have ok: "\<forall>c\<in>set (map numbered_call [0..<1001]). call_succeeds c"
    by (simp add: call_succeeds_def numbered_call_def isLoggingEnabled_def)
  have empty: "readExistingLogs None = JEntries []"
    by (simp add: readExistingLogs_def fs_readFile_def)
  show ?thesis by (rule log_keeps_most_recent_1000 [OF len ok empty])
qed

text \<open>
  Claim C5. \<open>logBlockedAd\<close> never throws: whatever the file holds and whichever file
  operation fails, the promise it returns is fulfilled. With the feature flag disabled it
  is a no-op (the file is unchanged). A missing, unreadable or corrupt log file is read as
  the empty collection, so that with the flag enabled and working writes the file afterwards
  holds exactly the new entry.
\<close>

theorem logBlockedAd_never_throws:
  "fst (logBlockedAd env ip title description ws ua file) = Inr ()
   \<and> (\<not> isLoggingEnabled env \<longrightarrow> snd (logBlockedAd env ip title description ws ua file) = file)
   \<and> (file = None \<or> file = Some Garbage \<longrightarrow> readExistingLogs file = JEntries [])
   \<and> (isLoggingEnabled env \<and> (file = None \<or> file = Some Garbage)
          \<and> \<not> env_mkdir_fails env \<and> env_write_fails env = None \<longrightarrow>
        snd (logBlockedAd env ip title description ws ua file)
          = Some (Json (JEntries [newLogEntry env ip title description ws ua])))"
proof (intro conjI impI)
  show "fst (logBlockedAd env ip title description ws ua file) = Inr ()"
    by (simp add: logBlockedAd_def split: prod.splits sum.splits)
next
  assume "\<not> isLoggingEnabled env"
  then show "snd (logBlockedAd env ip title description ws ua file) = file"
    by (simp add: logBlockedAd_def)
next
  assume "file = None \<or> file = Some Garbage"
  then show "readExistingLogs file = JEntries []"
    by (auto simp: readExistingLogs_def fs_readFile_def JSON_parse_def)
next
  assume a: "isLoggingEnabled env \<and> (file = None \<or> file = Some Garbage)
          \<and> \<not> env_mkdir_fails env \<and> env_write_fails env = None"
  then have r: "readExistingLogs file = JEntries []"
    by (auto simp: readExistingLogs_def fs_readFile_def JSON_parse_def)
  have l: "limitLogEntries [newLogEntry env ip title description ws ua]
             = [newLogEntry env ip title description ws ua]"
    by (simp add: limitLogEntries_def MAX_LOG_ENTRIES_def)
  from a r l show "snd (logBlockedAd env ip title description ws ua file)
          = Some (Json (JEntries [newLogEntry env ip title description ws ua]))"
    by (simp add: logBlockedAd_def logBlockedAd_try_def spread_def writeLogsToFile_def Let_def)
qed

theorem logBlockedAd_never_throws_witness:
  "fst (logBlockedAd (sample_env (Some ''true'') True) ''10.0.0.1'' ''Gratis gokken'' ''aanbieding''
          [''gokken''] None (Some (Json JNotIterable))) = Inr ()
   \<and> snd (logBlockedAd (sample_env None False) ''10.0.0.1'' ''Gratis gokken'' ''aanbieding''
          [''gokken''] None (Some Garbage)) = Some Garbage
   \<and> readExistingLogs (Some Garbage) = JEntries []
   \<and> snd (logBlockedAd (sample_env (Some ''true'') False) ''10.0.0.1'' ''Gratis gokken'' ''aanbieding''
          [''gokken''] None (Some Garbage))
       = Some (Json (JEntries [newLogEntry (sample_env (Some ''true'') False) ''10.0.0.1''
                                 ''Gratis gokken'' ''aanbieding'' [''gokken''] None]))"
proof -
  have off: "\<not> isLoggingEnabled (sample_env None False)"
    by (simp add: isLoggingEnabled_def sample_env_def)
  have on: "isLoggingEnabled (sample_env (Some ''true'') False)
      \<and> (Some Garbage = None \<or> Some Garbage = Some Garbage)
      \<and> \<not> env_mkdir_fails (sample_env (Some ''true'') False)
      \<and> env_write_fails (sample_env (Some ''true'') False) = None"
    by (simp add: isLoggingEnabled_def sample_env_def)
  note a = logBlockedAd_never_throws [of "sample_env (Some ''true'') True" "''10.0.0.1''"
      "''Gratis gokken''" "''aanbieding''" "[''gokken'']" None "Some (Json JNotIterable)"]
  note b = logBlockedAd_never_throws [of "sample_env None False" "''10.0.0.1''"
      "''Gratis gokken''" "''aanbieding''" "[''gokken'']" None "Some Garbage"]
  note c = logBlockedAd_never_throws [of "sample_env (Some ''true'') False" "''10.0.0.1''"
      "''Gratis gokken''" "''aanbieding''" "[''gokken'']" None "Some Garbage"]
  from a b c off on show ?thesis by blast
qed

section \<open>Properties of the ad lifecycle\<close>

subsection \<open>Expiration sweep\<close>

lemma selected_sweep_iff:
  "selected (sweep_condition t a) \<longleftrightarrow>
     (\<exists>c s. a_createdAt a = Some c \<and> c < t \<and> a_status a = Some s \<and> s \<noteq> ''expired'')"
  by (cases "a_createdAt a"; cases "a_status a")
     (auto simp: selected_def sweep_condition_def sql_and_def sql_lt_def sql_ne_def)

lemma checkExpiredAds_map:
  "checkExpiredAds now False (Some d) =
     Some (d\<lparr>ads := map (\<lambda>a. if selected (sweep_condition (now - sixtyDays) a)
                               then a\<lparr>a_status := Some ''expired''\<rparr> else a) (ads d)\<rparr>)"
proof (cases "filter (\<lambda>a. selected (sweep_condition (now - sixtyDays) a)) (ads d) = []")
  case True
  then have "\<forall>a\<in>set (ads d). \<not> selected (sweep_condition (now - sixtyDays) a)"
    by (simp add: filter_empty_conv)
  then have "map (\<lambda>a. if selected (sweep_condition (now - sixtyDays) a)
                               then a\<lparr>a_status := Some ''expired''\<rparr> else a) (ads d) = ads d"
    by (simp add: map_idI)
  with True show ?thesis by (simp add: checkExpiredAds_def)
next
  case False
  then show ?thesis by (simp add: checkExpiredAds_def Let_def)
qed

text \<open>
  Claim C6. With the database connected and its queries succeeding, the expiration sweep
  changes the status of an approved ad whose \<open>createdAt\<close> is 61 days in the past to
  \<open>expired\<close> (and changes nothing else of it), and leaves an ad whose \<open>createdAt\<close> is 59
  days in the past as it is.
\<close>

theorem sweep_expires_after_sixty_days:
  assumes "i < length (ads d)"
  shows "\<exists>d'. checkExpiredAds now False (Some d) = Some d' \<and> length (ads d') = length (ads d)
     \<and> (a_createdAt (ads d ! i) = Some (now - 61 * oneDay) \<and> a_status (ads d ! i) = Some ''approved''
          \<longrightarrow> ads d' ! i = (ads d ! i)\<lparr>a_status := Some ''expired''\<rparr>)
     \<and> (a_createdAt (ads d ! i) = Some (now - 59 * oneDay) \<longrightarrow> ads d' ! i = ads d ! i)"
proof -
  let ?f = "\<lambda>a. if selected (sweep_condition (now - sixtyDays) a)
                               then a\<lparr>a_status := Some ''expired''\<rparr> else a"
  have old: "a_createdAt a = Some (now - 61 * oneDay) \<and> a_status a = Some ''approved''
      \<Longrightarrow> ?f a = a\<lparr>a_status := Some ''expired''\<rparr>" for a :: ad
    by (simp add: selected_sweep_iff sixtyDays_def oneDay_def)
  have young: "a_createdAt a = Some (now - 59 * oneDay) \<Longrightarrow> ?f a = a" for a :: ad
    by (simp add: selected_sweep_iff sixtyDays_def oneDay_def)
  show ?thesis
    unfolding checkExpiredAds_map using assms old young by simp
qed

theorem sweep_expires_after_sixty_days_witness:
  "\<exists>d'. checkExpiredAds (100 * oneDay) False
            (Some (db_with [sample_ad ''approved'' (39 * oneDay), sample_ad ''approved'' (41 * oneDay)] []))
          = Some d'
      \<and> ads d' = [sample_ad ''expired'' (39 * oneDay), sample_ad ''approved'' (41 * oneDay)]"
proof -
  let ?d = "db_with [sample_ad ''approved'' (39 * oneDay), sample_ad ''approved'' (41 * oneDay)] []"
  have l: "length (ads ?d) = 2" by (simp add: db_with_def)
  have i0: "(0::nat) < length (ads ?d)" and i1: "(1::nat) < length (ads ?d)" using l by simp_all
  have a0: "a_createdAt (ads ?d ! 0) = Some (100 * oneDay - 61 * oneDay)
      \<and> a_status (ads ?d ! 0) = Some ''approved''"
    by (simp add: db_with_def sample_ad_def)
  have a1: "a_createdAt (ads ?d ! 1) = Some (100 * oneDay - 59 * oneDay)"
    by (simp add: db_with_def sample_ad_def)
  have e0: "(ads ?d ! 0)\<lparr>a_status := Some ''expired''\<rparr> = sample_ad ''expired'' (39 * oneDay)"
    by (simp add: db_with_def sample_ad_def)
  have e1: "ads ?d ! 1 = sample_ad ''approved'' (41 * oneDay)"
    by (simp add: db_with_def)
  from sweep_expires_after_sixty_days [OF i0, of "100 * oneDay"] a0 e0
  obtain d' where d': "checkExpiredAds (100 * oneDay) False (Some ?d) = Some d'"
    "length (ads d') = length (ads ?d)" "ads d' ! 0 = sample_ad ''expired'' (39 * oneDay)"
    by auto
  from sweep_expires_after_sixty_days [OF i1, of "100 * oneDay"] a1 e1 d'(1)
  have "ads d' ! 1 = sample_ad ''approved'' (41 * oneDay)" by auto
  with d' l have "ads d' = [sample_ad ''expired'' (39 * oneDay), sample_ad ''approved'' (41 * oneDay)]"
    by (auto simp: list_eq_iff_nth_eq less_Suc_eq numeral_2_eq_2)
  with d'(1) show ?thesis by blast
qed

subsection \<open>Status transitions\<close>

lemma selected_sweep_qualifies:
  "selected (sweep_condition (now - sixtyDays) a) = sweep_qualifies now a"
  by (cases "a_createdAt a"; cases "a_status a")
     (auto simp: selected_def sweep_condition_def sql_and_def sql_lt_def sql_ne_def sweep_qualifies_def)

lemma checkExpiredAds_effect:
  "checkExpiredAds now False (Some d) = Some (d\<lparr>ads := map (expire_if_old now) (ads d)\<rparr>)"
proof -
  have "map (\<lambda>a. if selected (sweep_condition (now - sixtyDays) a)
                  then a\<lparr>a_status := Some ''expired''\<rparr> else a) (ads d)
        = map (expire_if_old now) (ads d)"
    by (rule map_cong) (simp_all add: expire_if_old_def selected_sweep_qualifies)
  then show ?thesis by (simp add: checkExpiredAds_map)
qed

lemma updateAdStatus_rows:
  "snd (updateAdStatus i s now d) = d\<lparr>ads := map (set_status_of i s now) (ads d)\<rparr>"
proof -
  have "map (\<lambda>a. if a_id a = i then a\<lparr>a_status := Some s, a_updatedAt := Some now\<rparr> else a) (ads d)
        = map (set_status_of i s now) (ads d)"
    by (rule map_cong) (simp_all add: set_status_of_def)
  then show ?thesis by (simp add: updateAdStatus_def Let_def)
qed

lemma one_click_route_db:
  "snd (one_click_route s h i now qf (Some d)) =
     Some (case i of None \<Rightarrow> d
           | Some n \<Rightarrow> if \<not> qf \<and> int4 n then snd (updateAdStatus n s now d) else d)"
  by (simp add: one_click_route_def split: option.splits prod.splits)

lemma patch_status_route_db:
  "snd (patch_status_route g i s now qf (Some d)) =
     Some (case (g, i) of
             (None, Some n) \<Rightarrow>
               if \<not> qf \<and> int4 n \<and> s \<in> set [''pending'', ''approved'', ''rejected'']
               then snd (updateAdStatus n s now d) else d
           | _ \<Rightarrow> d)"
  by (simp add: patch_status_route_def split: option.splits prod.splits)

lemma filter_other_ids:
  "\<not> list_ex (\<lambda>a. a_id a = n) rows \<Longrightarrow> filter (\<lambda>a. a_id a \<noteq> n) rows = rows"
  by (induction rows) auto

lemma delete_route_db:
  "snd (delete_route g i qf (Some d)) =
     Some (case (g, i) of
             (None, Some n) \<Rightarrow>
               if \<not> qf \<and> int4 n \<and> n \<notin> set (adReferences d)
               then d\<lparr>ads := filter (\<lambda>a. a_id a \<noteq> n) (ads d)\<rparr> else d
           | _ \<Rightarrow> d)"
proof (cases g)
  case (Some code)
  then show ?thesis by (simp add: delete_route_def)
next
  case None
  show ?thesis
  proof (cases i)
    case none: None
    with None show ?thesis by (simp add: delete_route_def)
  next
    case (Some n)
    show ?thesis
    proof (cases "list_ex (\<lambda>a. a_id a = n) (ads d)")
      case True
      with None Some show ?thesis
        by (simp add: delete_route_def deleteAd_def split: bool.splits)
    next
      case False
      then have "filter (\<lambda>a. a_id a \<noteq> n) (ads d) = ads d" by (rule filter_other_ids)
      with False None Some show ?thesis
        by (simp add: delete_route_def deleteAd_def split: bool.splits)
    qed
  qed
qed

lemma apply_operation_null: "apply_operation op None = None"
  by (cases op)
     (simp_all add: checkExpiredAds_def approve_route_def reject_route_def one_click_route_def
        patch_status_route_def delete_route_def split: option.splits)

text \<open>
  Claim C2, as amended. On a connected database every operation changes the table \<open>ads\<close>
  exactly as \<open>status_effect\<close> says and changes no other table: the expiration sweep sets
  \<open>expired\<close> on every ad created more than sixty days ago whose status is anything but
  \<open>expired\<close> (pending, approved or rejected alike) and leaves every other ad as it is, so
  it never changes an expired ad; the one-click approve and reject endpoints set \<open>approved\<close>
  and \<open>rejected\<close> (and the time of the update) on every ad with the given id, whatever its
  status was, and leave every other ad as it is; the admin status route does the same
  with \<open>pending\<close>, \<open>approved\<close> or \<open>rejected\<close>; the admin delete removes the ad with the
  given id, whatever its status, unless a row of another table still references it, in
  which case nothing is deleted. An operation that fails (a failing query, an id that is
  not a number or outside the range of the column, a request refused by the admin check,
  a status outside the three) changes nothing, and without a database nothing happens.
\<close>

theorem status_changes_of_operations:
  "apply_operation op (Some d) = Some (status_effect op d) \<and> apply_operation op None = None"
proof -
  have "apply_operation op (Some d) = Some (status_effect op d)"
  proof (cases op)
    case (ExpirationSweep now qf)
    then show ?thesis
      by (cases qf) (simp_all add: status_effect_def checkExpiredAds_effect, simp add: checkExpiredAds_def)
  next
    case (OneClickApprove i now qf)
    then show ?thesis
      by (simp add: status_effect_def approve_route_def one_click_route_db updateAdStatus_rows
          split: option.splits)
  next
    case (OneClickReject i now qf)
    then show ?thesis
      by (simp add: status_effect_def reject_route_def one_click_route_db updateAdStatus_rows
          split: option.splits)
  next
    case (PatchStatus g i s now qf)
    then show ?thesis
      by (auto simp: status_effect_def patch_status_route_db updateAdStatus_rows
          split: option.splits)
  next
    case (DeleteAd g i qf)
    then show ?thesis
      by (simp add: status_effect_def delete_route_db split: option.splits)
  qed
  then show ?thesis by (simp add: apply_operation_null)
qed

theorem status_changes_of_operations_witness:
  "apply_operation (ExpirationSweep (100 * oneDay) False)
       (Some (db_with [sample_ad ''pending'' (39 * oneDay), sample_ad ''approved'' (41 * oneDay),
                       sample_ad ''expired'' (39 * oneDay)] []))
     = Some (db_with [sample_ad ''expired'' (39 * oneDay), sample_ad ''approved'' (41 * oneDay),
                      sample_ad ''expired'' (39 * oneDay)] [])
   \<and> apply_operation (OneClickReject (Some 7) 5 False) (Some (db_with [sample_ad ''expired'' 0] []))
     = Some (db_with [(sample_ad ''rejected'' 0)\<lparr>a_updatedAt := Some 5\<rparr>] [])
   \<and> apply_operation (PatchStatus None (Some 7) ''pending'' 5 False) (Some (db_with [sample_ad ''approved'' 0] []))
     = Some (db_with [(sample_ad ''pending'' 0)\<lparr>a_updatedAt := Some 5\<rparr>] [])
   \<and> apply_operation (DeleteAd None (Some 7) False) (Some (db_with [sample_ad ''rejected'' 0] []))
     = Some (db_with [] [])
   \<and> apply_operation (DeleteAd None (Some 7) False)
       (Some ((db_with [sample_ad ''rejected'' 0] [])\<lparr>adReferences := [7]\<rparr>))
     = Some ((db_with [sample_ad ''rejected'' 0] [])\<lparr>adReferences := [7]\<rparr>)"
proof -
  have e1: "status_effect (ExpirationSweep (100 * oneDay) False)
       (db_with [sample_ad ''pending'' (39 * oneDay), sample_ad ''approved'' (41 * oneDay),
                 sample_ad ''expired'' (39 * oneDay)] [])
     = db_with [sample_ad ''expired'' (39 * oneDay), sample_ad ''approved'' (41 * oneDay),
                sample_ad ''expired'' (39 * oneDay)] []"
    by (simp add: status_effect_def expire_if_old_def sweep_qualifies_def db_with_def sample_ad_def
        sixtyDays_def oneDay_def)
  have e2: "status_effect (OneClickReject (Some 7) 5 False) (db_with [sample_ad ''expired'' 0] [])
     = db_with [(sample_ad ''rejected'' 0)\<lparr>a_updatedAt := Some 5\<rparr>] []"
    by (simp add: status_effect_def set_status_of_def int4_def db_with_def sample_ad_def)
  have e3: "status_effect (PatchStatus None (Some 7) ''pending'' 5 False) (db_with [sample_ad ''approved'' 0] [])
     = db_with [(sample_ad ''pending'' 0)\<lparr>a_updatedAt := Some 5\<rparr>] []"
    by (simp add: status_effect_def set_status_of_def int4_def db_with_def sample_ad_def)
  have e4: "status_effect (DeleteAd None (Some 7) False) (db_with [sample_ad ''rejected'' 0] [])
     = db_with [] []"
    by (simp add: status_effect_def int4_def db_with_def sample_ad_def)
  have e5: "status_effect (DeleteAd None (Some 7) False)
       ((db_with [sample_ad ''rejected'' 0] [])\<lparr>adReferences := [7]\<rparr>)
     = (db_with [sample_ad ''rejected'' 0] [])\<lparr>adReferences := [7]\<rparr>"
    by (simp add: status_effect_def int4_def db_with_def sample_ad_def)
  show ?thesis
    using status_changes_of_operations
            [of "ExpirationSweep (100 * oneDay) False"
                "db_with [sample_ad ''pending'' (39 * oneDay), sample_ad ''approved'' (41 * oneDay),
                          sample_ad ''expired'' (39 * oneDay)] []"]
          status_changes_of_operations
            [of "OneClickReject (Some 7) 5 False" "db_with [sample_ad ''expired'' 0] []"]
          status_changes_of_operations
            [of "PatchStatus None (Some 7) ''pending'' 5 False" "db_with [sample_ad ''approved'' 0] []"]
          status_changes_of_operations
            [of "DeleteAd None (Some 7) False" "db_with [sample_ad ''rejected'' 0] []"]
          status_changes_of_operations
            [of "DeleteAd None (Some 7) False"
                "(db_with [sample_ad ''rejected'' 0] [])\<lparr>adReferences := [7]\<rparr>"]
    unfolding e1 e2 e3 e4 e5 by blast
qed

text \<open>
  Claim C2 as stated fails: the one-click approve endpoint moves a rejected ad and an expired
  ad to \<open>approved\<close>, and the sweep moves a pending ad and a rejected ad that are 61 days old
  to \<open>expired\<close>.
\<close>

theorem status_transitions_counterexample:
  "apply_operation (OneClickApprove (Some 7) 5 False) (Some (db_with [sample_ad ''rejected'' 0] []))
     = Some (db_with [(sample_ad ''approved'' 0)\<lparr>a_updatedAt := Some 5\<rparr>] [])
   \<and> apply_operation (OneClickApprove (Some 7) 5 False) (Some (db_with [sample_ad ''expired'' 0] []))
     = Some (db_with [(sample_ad ''approved'' 0)\<lparr>a_updatedAt := Some 5\<rparr>] [])
   \<and> apply_operation (ExpirationSweep (61 * oneDay) False) (Some (db_with [sample_ad ''pending'' 0] []))
     = Some (db_with [sample_ad ''expired'' 0] [])
   \<and> apply_operation (ExpirationSweep (61 * oneDay) False) (Some (db_with [sample_ad ''rejected'' 0] []))
     = Some (db_with [sample_ad ''expired'' 0] [])"
  by (simp add: approve_route_def one_click_route_def updateAdStatus_def db_with_def sample_ad_def
      checkExpiredAds_def selected_def sweep_condition_def sql_and_def sql_lt_def sql_ne_def
      sixtyDays_def oneDay_def int4_def)

subsection \<open>Ad creation\<close>











section \<open>Properties of the rate limiters\<close>

lemma rateLimit_response:
  assumes "0 < lim_max l"
  shows "fst (rateLimit l ip now store) = (if over_limit l ip now store then Some (limit_response l) else None)"
proof (cases "store_lookup store ip")
  case None
  with assms show ?thesis
    by (simp add: rateLimit_def increment_def over_limit_def)
next
  case (Some hr)
  obtain hits resetTime where hr: "hr = (hits, resetTime)" by (cases hr)
  with Some assms show ?thesis
    by (auto simp: rateLimit_def increment_def over_limit_def)
qed

text \<open>
  Claim C9, as amended. Each of the four limiters answers a client that is over its limit,
  and only such a client, with HTTP status 429. The body sent by the ad-creation limiter
  has the fields \<open>error\<close>, \<open>message\<close> and \<open>retryAfter\<close>; the body of the contact limiter has
  these and \<open>limit\<close> and \<open>windowMs\<close>; the bodies of the login limiter and of the
  registration limiter have the single field \<open>error\<close>.
\<close>

theorem limiter_responses:
  "fst (rateLimit createAdLimiter ip now store) =
     (if over_limit createAdLimiter ip now store then Some (limit_response createAdLimiter) else None)
   \<and> fst (rateLimit contactLimiter ip now store) =
     (if over_limit contactLimiter ip now store then Some (limit_response contactLimiter) else None)
   \<and> fst (rateLimit loginLimiter ip now store) =
     (if over_limit loginLimiter ip now store then Some (limit_response loginLimiter) else None)
   \<and> fst (rateLimit registerLimiter ip now store) =
     (if over_limit registerLimiter ip now store then Some (limit_response registerLimiter) else None)
   \<and> response_fields (Some (limit_response createAdLimiter)) = Some (429, [''error'', ''message'', ''retryAfter''])
   \<and> response_fields (Some (limit_response contactLimiter))
        = Some (429, [''error'', ''message'', ''retryAfter'', ''limit'', ''windowMs''])
   \<and> response_fields (Some (limit_response loginLimiter)) = Some (429, [''error''])
   \<and> response_fields (Some (limit_response registerLimiter)) = Some (429, [''error''])"
proof (intro conjI)
  show "fst (rateLimit createAdLimiter ip now store) =
     (if over_limit createAdLimiter ip now store then Some (limit_response createAdLimiter) else None)"
    by (rule rateLimit_response) (simp add: createAdLimiter_def)
  show "fst (rateLimit contactLimiter ip now store) =
     (if over_limit contactLimiter ip now store then Some (limit_response contactLimiter) else None)"
    by (rule rateLimit_response) (simp add: contactLimiter_def)
  show "fst (rateLimit loginLimiter ip now store) =
     (if over_limit loginLimiter ip now store then Some (limit_response loginLimiter) else None)"
    by (rule rateLimit_response) (simp add: loginLimiter_def)
  show "fst (rateLimit registerLimiter ip now store) =
     (if over_limit registerLimiter ip now store then Some (limit_response registerLimiter) else None)"
    by (rule rateLimit_response) (simp add: registerLimiter_def)
  show "response_fields (Some (limit_response createAdLimiter)) = Some (429, [''error'', ''message'', ''retryAfter''])"
    by (simp add: response_fields_def limit_response_def createAdLimiter_def body_fields_def)
  show "response_fields (Some (limit_response contactLimiter))
        = Some (429, [''error'', ''message'', ''retryAfter'', ''limit'', ''windowMs''])"
    by (simp add: response_fields_def limit_response_def contactLimiter_def body_fields_def)
  show "response_fields (Some (limit_response loginLimiter)) = Some (429, [''error''])"
    by (simp add: response_fields_def limit_response_def loginLimiter_def body_fields_def
        default_statusCode_def the_default_def)
  show "response_fields (Some (limit_response registerLimiter)) = Some (429, [''error''])"
    by (simp add: response_fields_def limit_response_def registerLimiter_def body_fields_def
        default_statusCode_def the_default_def)
qed

theorem limiter_responses_witness:
  "response_fields (fst (rateLimit createAdLimiter ''10.0.0.1'' 1000 [(''10.0.0.1'', 5, 2000)]))
     = Some (429, [''error'', ''message'', ''retryAfter''])
   \<and> response_fields (fst (rateLimit registerLimiter ''10.0.0.1'' 1000 [(''10.0.0.1'', 3, 2000)]))
     = Some (429, [''error''])
   \<and> fst (rateLimit registerLimiter ''10.0.0.1'' 1000 [(''10.0.0.1'', 2, 2000)]) = None"
proof -
  have o1: "over_limit createAdLimiter ''10.0.0.1'' 1000 [(''10.0.0.1'', 5, 2000)]"
    by (simp add: over_limit_def store_lookup_def createAdLimiter_def)
  have o2: "over_limit registerLimiter ''10.0.0.1'' 1000 [(''10.0.0.1'', 3, 2000)]"
    by (simp add: over_limit_def store_lookup_def registerLimiter_def)
  have o3: "\<not> over_limit registerLimiter ''10.0.0.1'' 1000 [(''10.0.0.1'', 2, 2000)]"
    by (simp add: over_limit_def store_lookup_def registerLimiter_def)
  note a = limiter_responses [of "''10.0.0.1''" 1000 "[(''10.0.0.1'', 5, 2000)]"]
  note b = limiter_responses [of "''10.0.0.1''" 1000 "[(''10.0.0.1'', 3, 2000)]"]
  note c = limiter_responses [of "''10.0.0.1''" 1000 "[(''10.0.0.1'', 2, 2000)]"]
  from a o1 have 1: "response_fields (fst (rateLimit createAdLimiter ''10.0.0.1'' 1000 [(''10.0.0.1'', 5, 2000)]))
     = Some (429, [''error'', ''message'', ''retryAfter''])" by simp
  from b o2 have 2: "response_fields (fst (rateLimit registerLimiter ''10.0.0.1'' 1000 [(''10.0.0.1'', 3, 2000)]))
     = Some (429, [''error''])" by simp
  from c o3 have 3: "fst (rateLimit registerLimiter ''10.0.0.1'' 1000 [(''10.0.0.1'', 2, 2000)]) = None"
    by simp
  from 1 2 3 show ?thesis by blast
qed

text \<open>
  Claim C9 as stated fails for the login limiter (and likewise the registration limiter):
  the sixth login attempt in a window is answered with status 429 and a body whose only
  field is \<open>error\<close>.
\<close>

theorem limiter_body_counterexample:
  "response_fields (fst (rateLimit loginLimiter ''10.0.0.1'' 1000 [(''10.0.0.1'', 5, 2000)]))
     = Some (429, [''error''])"
  by (simp add: rateLimit_def increment_def store_lookup_def loginLimiter_def limit_response_def
      response_fields_def body_fields_def default_statusCode_def the_default_def)

section \<open>Properties of the dynamic filter generator\<close>

lemma uniq_fold:
  "distinct acc \<Longrightarrow>
     distinct (fold (\<lambda>x acc. if x \<in> set acc then acc else acc @ [x]) xs acc)
     \<and> set (fold (\<lambda>x acc. if x \<in> set acc then acc else acc @ [x]) xs acc) = set acc \<union> set xs"
  by (induction xs arbitrary: acc) auto

lemma distinct_uniq: "distinct (uniq xs)"
  using uniq_fold [of "[]" xs] by (simp add: uniq_def)

lemma set_uniq: "set (uniq xs) = set xs"
  using uniq_fold [of "[]" xs] by (simp add: uniq_def)

lemma length_uniq: "length (uniq xs) = card (set xs)"
  by (metis distinct_card distinct_uniq set_uniq)

lemma sort_uniq: "sort (uniq xs) = sorted_list_of_set (set xs)"
proof (rule sorted_distinct_set_unique)
  show "sorted (sort (uniq xs))" by simp
  show "distinct (sort (uniq xs))" by (simp add: distinct_uniq)
  show "sorted (sorted_list_of_set (set xs))" by simp
  show "distinct (sorted_list_of_set (set xs))" by simp
  show "set (sort (uniq xs)) = set (sorted_list_of_set (set xs))" by (simp add: set_uniq)
qed

lemma locations_of_rows:
  "set (filter (\<lambda>l. l \<noteq> []) (map a_location (categoryAds d cat))) = category_locations d cat"
proof -
  have sel: "selected (sql_and (sql_eq (a_categoryId a) (c_id cat)) (sql_eq (a_status a) ''approved''))
      \<longleftrightarrow> a_categoryId a = Some (c_id cat) \<and> a_status a = Some ''approved''" for a :: ad
    by (cases "a_categoryId a"; cases "a_status a")
       (auto simp: selected_def sql_and_def sql_eq_def)
  show ?thesis
    by (auto simp: categoryAds_def category_locations_def sel)
qed

lemma locationFilters_eq:
  "locationFilters slug (categoryAds d cat) =
     (if 2 \<le> card (category_locations d cat)
      then [location_facet slug (sorted_list_of_set (category_locations d cat))] else [])"
proof -
  let ?ls = "filter (\<lambda>l. l \<noteq> []) (map a_location (categoryAds d cat))"
  have c: "length (uniq ?ls) = card (category_locations d cat)"
    by (simp only: length_uniq locations_of_rows)
  have s: "sort (uniq ?ls) = sorted_list_of_set (category_locations d cat)"
    by (simp only: sort_uniq locations_of_rows)
  show ?thesis
    unfolding locationFilters_def Let_def c s location_facet_def by auto
qed

lemma keyword_facet_not_location:
  "field \<noteq> ''location'' \<Longrightarrow>
     filter (\<lambda>f. f_field f = ''location'') (keyword_facet ident slug field label ph n render found) = []"
  by (simp add: keyword_facet_def dynamic_filter_def)

lemma specific_not_location:
  "filter (\<lambda>f. f_field f = ''location'') (generateCategorySpecificFilters slug rows) = []"
  by (simp add: generateCategorySpecificFilters_def Let_def keyword_facet_not_location)

lemma price_not_location:
  "filter (\<lambda>f. f_field f = ''location'') (priceFilters slug rows) = []"
  by (simp add: priceFilters_def Let_def dynamic_filter_def split: list.splits)

lemma location_facet_field: "f_field (location_facet slug opts) = ''location''"
  by (simp add: location_facet_def dynamic_filter_def)

lemma no_rows_no_locations: "categoryAds d cat = [] \<Longrightarrow> category_locations d cat = {}"
  using locations_of_rows [of d cat] by simp

lemma autos_no_curated: "curatedFilters (autos_db rows) ''autos'' = []"
  by (simp add: curatedFilters_def autos_db_def)

lemma autos_category_found: "findCategoryBySlug (autos_db rows) ''autos'' = Some autos_category"
  by (simp add: findCategoryBySlug_def autos_db_def autos_category_def)

lemma car_ads_selected: "categoryAds (autos_db [car_ad i t ds l p]) autos_category = [car_ad i t ds l p]"
  "categoryAds (autos_db [car_ad i t ds l p, car_ad i' t' ds' l' p']) autos_category
     = [car_ad i t ds l p, car_ad i' t' ds' l' p']"
  by (simp_all add: categoryAds_def autos_db_def autos_category_def car_ad_def selected_def
      sql_and_def sql_eq_def)

text \<open>
  Claim C8. For a category without (active) curated filter definitions, with the database
  connected and its queries succeeding, the response contains a location facet exactly when
  the approved ads of the category have at least two distinct non-empty location values;
  then it contains exactly one, whose options are the distinct values in sorted order.
\<close>

theorem location_facet_iff_two_locations:
  assumes "curatedFilters d slug = []" and "findCategoryBySlug d slug = Some cat"
  shows "\<exists>fs. filters_route slug False False (Some d) = FiltersOk fs
           \<and> filter (\<lambda>f. f_field f = ''location'') fs =
               (if 2 \<le> card (category_locations d cat)
                then [location_facet slug (sorted_list_of_set (category_locations d cat))] else [])"
proof (cases "categoryAds d cat = []")
  case True
  then have "filters_route slug False False (Some d) = FiltersOk []"
    using assms by (simp add: filters_route_def generateDynamicFilters_def)
  moreover have "category_locations d cat = {}" using True by (rule no_rows_no_locations)
  ultimately show ?thesis by simp
next
  case False
  then have "filters_route slug False False (Some d) =
      FiltersOk (locationFilters slug (categoryAds d cat) @ priceFilters slug (categoryAds d cat)
                   @ generateCategorySpecificFilters slug (categoryAds d cat))"
    using assms by (simp add: filters_route_def generateDynamicFilters_def Let_def)
  moreover have "filter (\<lambda>f. f_field f = ''location'') (locationFilters slug (categoryAds d cat)) =
      (if 2 \<le> card (category_locations d cat)
       then [location_facet slug (sorted_list_of_set (category_locations d cat))] else [])"
    by (simp add: locationFilters_eq location_facet_field)
  ultimately show ?thesis
    by (simp add: price_not_location specific_not_location)
qed

theorem location_facet_iff_two_locations_witness:
  "(\<exists>fs. filters_route ''autos'' False False
            (Some (autos_db [bmw_ad ''Paramaribo'' (Some 500000), toyota_ad ''Nickerie'' (Some 500000)]))
          = FiltersOk fs
        \<and> filter (\<lambda>f. f_field f = ''location'') fs = [location_facet ''autos'' [''Nickerie'', ''Paramaribo'']])
   \<and> (\<exists>fs. filters_route ''autos'' False False
            (Some (autos_db [bmw_ad ''Paramaribo'' (Some 500000), toyota_ad ''Paramaribo'' (Some 500000)]))
          = FiltersOk fs
        \<and> filter (\<lambda>f. f_field f = ''location'') fs = [])"
proof -
  let ?d2 = "autos_db [bmw_ad ''Paramaribo'' (Some 500000), toyota_ad ''Nickerie'' (Some 500000)]"
  let ?d1 = "autos_db [bmw_ad ''Paramaribo'' (Some 500000), toyota_ad ''Paramaribo'' (Some 500000)]"
  have l2: "category_locations ?d2 autos_category = set [''Paramaribo'', ''Nickerie'']"
    unfolding locations_of_rows [symmetric] bmw_ad_def toyota_ad_def car_ads_selected
    by (simp add: car_ad_def)
  have l1: "category_locations ?d1 autos_category = set [''Paramaribo'']"
    unfolding locations_of_rows [symmetric] bmw_ad_def toyota_ad_def car_ads_selected
    by (simp add: car_ad_def)
  have c2: "card (set [''Paramaribo'', ''Nickerie'']) = 2" by simp
  have c1: "card (set [''Paramaribo'']) = 1" by simp
  have s2: "sorted_list_of_set (set [''Paramaribo'', ''Nickerie'']) = [''Nickerie'', ''Paramaribo'']"
    by (simp add: sorted_list_of_set_sort_remdups less_eq_char_def)
  from location_facet_iff_two_locations [OF autos_no_curated autos_category_found, of
      "[bmw_ad ''Paramaribo'' (Some 500000), toyota_ad ''Nickerie'' (Some 500000)]"]
  have a: "\<exists>fs. filters_route ''autos'' False False (Some ?d2) = FiltersOk fs
        \<and> filter (\<lambda>f. f_field f = ''location'') fs = [location_facet ''autos'' [''Nickerie'', ''Paramaribo'']]"
    unfolding l2 c2 s2 by simp
  from location_facet_iff_two_locations [OF autos_no_curated autos_category_found, of
      "[bmw_ad ''Paramaribo'' (Some 500000), toyota_ad ''Paramaribo'' (Some 500000)]"]
  have b: "\<exists>fs. filters_route ''autos'' False False (Some ?d1) = FiltersOk fs
        \<and> filter (\<lambda>f. f_field f = ''location'') fs = []"
    unfolding l1 c1 by simp
  from a b show ?thesis by blast
qed

subsection \<open>Keyword facets\<close>

lemma same_location_no_facet:
  "locationFilters slug [car_ad i t ds l p] = []"
  "locationFilters slug [car_ad i t ds l p, car_ad i' t' ds' l p'] = []"
  by (simp_all add: locationFilters_def uniq_def car_ad_def)

lemma same_price_no_facet:
  "priceFilters slug [car_ad i t ds l p] = []"
  "priceFilters slug [car_ad i t ds l p, car_ad i' t' ds' l' p] = []"
  by (cases p; simp add: priceFilters_def car_ad_def List.map_filter_simps)+

lemma autos_slug:
  "string_includes ''autos'' ''telefoon'' = False" "string_includes ''autos'' ''elektronica'' = False"
  "string_includes ''autos'' ''kleding'' = False"
  by simp_all

lemma bmw_text:
  "toLowerCase (join '' '' (map (\<lambda>a. a_title a @ '' '' @ a_description a) [bmw_ad l p]))
     = ''auto te koop bmw diesel automaat''"
  by (simp add: bmw_ad_def car_ad_def toLowerCase_def lower_char_def char_of_nat_eq_iff)

lemma bmw_toyota_text:
  "toLowerCase (join '' '' (map (\<lambda>a. a_title a @ '' '' @ a_description a) [bmw_ad l p, toyota_ad l' p']))
     = ''auto te koop bmw diesel automaat toyota corolla benzine, handgeschakeld''"
  by (simp add: bmw_ad_def toyota_ad_def car_ad_def toLowerCase_def lower_char_def char_of_nat_eq_iff)

lemma bmw_keywords:
  "extractKeywords ''auto te koop bmw diesel automaat''
     [''toyota'', ''bmw'', ''mercedes'', ''volkswagen'', ''audi'', ''ford'', ''hyundai'',
      ''kia'', ''nissan'', ''honda'', ''peugeot'', ''renault'', ''opel'', ''mazda'', ''suzuki''] = [''bmw'']"
  "extractKeywords ''auto te koop bmw diesel automaat''
     [''benzine'', ''diesel'', ''hybride'', ''elektrisch'', ''lpg''] = [''diesel'']"
  "extractKeywords ''auto te koop bmw diesel automaat''
     [''handgeschakeld'', ''automaat'', ''handmatig''] = [''automaat'']"
  by code_simp+

lemma bmw_toyota_keywords:
  "extractKeywords ''auto te koop bmw diesel automaat toyota corolla benzine, handgeschakeld''
     [''toyota'', ''bmw'', ''mercedes'', ''volkswagen'', ''audi'', ''ford'', ''hyundai'',
      ''kia'', ''nissan'', ''honda'', ''peugeot'', ''renault'', ''opel'', ''mazda'', ''suzuki'']
     = [''toyota'', ''bmw'']"
  "extractKeywords ''auto te koop bmw diesel automaat toyota corolla benzine, handgeschakeld''
     [''benzine'', ''diesel'', ''hybride'', ''elektrisch'', ''lpg''] = [''benzine'', ''diesel'']"
  "extractKeywords ''auto te koop bmw diesel automaat toyota corolla benzine, handgeschakeld''
     [''handgeschakeld'', ''automaat'', ''handmatig''] = [''handgeschakeld'', ''automaat'']"
  by code_simp+

lemma capitalized:
  "sort (map capitalizeFirst [''toyota'', ''bmw'']) = [''Bmw'', ''Toyota'']"
  "sort (map capitalizeFirst [''benzine'', ''diesel'']) = [''Benzine'', ''Diesel'']"
  "sort (map capitalizeFirst [''handgeschakeld'', ''automaat'']) = [''Automaat'', ''Handgeschakeld'']"
  by code_simp+

lemma bmw_specific: "generateCategorySpecificFilters ''autos'' [bmw_ad l p] = []"
  unfolding generateCategorySpecificFilters_def bmw_text Let_def bmw_keywords autos_slug
  by (simp add: keyword_facet_def)

lemma bmw_toyota_specific:
  "map facet_options (generateCategorySpecificFilters ''autos'' [bmw_ad l p, toyota_ad l' p']) =
     [(''merk'', Some [''Bmw'', ''Toyota'']), (''brandstof'', Some [''Benzine'', ''Diesel'']),
      (''transmissie'', Some [''Automaat'', ''Handgeschakeld''])]"
  unfolding generateCategorySpecificFilters_def bmw_toyota_text Let_def bmw_toyota_keywords autos_slug
    keyword_facet_def capitalized
  by (simp add: facet_options_def dynamic_filter_def)

text \<open>
  Claim C7, as amended. After a single approved ad with title \<open>Auto te koop\<close> and description
  \<open>BMW diesel automaat\<close> in the category \<open>autos\<close> (no other ads, no curated filter
  definitions; any location and price), \<open>GET /api/filters/autos\<close> returns an empty filter
  list: there is no \<open>merk\<close>, \<open>brandstof\<close> or \<open>transmissie\<close> facet, because each keyword
  family has a single hit and a family becomes a facet only when more than one of its
  keywords is found. With a second approved ad (title \<open>Toyota Corolla\<close>, description
  \<open>Benzine, handgeschakeld\<close>, same location and price) the response consists of a
  \<open>merk\<close> facet with the options Bmw and Toyota, a \<open>brandstof\<close> facet with Benzine and
  Diesel, and a \<open>transmissie\<close> facet with Automaat and Handgeschakeld.
\<close>

theorem single_car_ad_yields_no_facets:
  "filters_route ''autos'' False False (Some (autos_db [bmw_ad location price])) = FiltersOk []
   \<and> map facet_options (response_filters (filters_route ''autos'' False False
            (Some (autos_db [bmw_ad location price, toyota_ad location price]))))
       = [(''merk'', Some [''Bmw'', ''Toyota'']), (''brandstof'', Some [''Benzine'', ''Diesel'']),
          (''transmissie'', Some [''Automaat'', ''Handgeschakeld''])]"
proof
  show "filters_route ''autos'' False False (Some (autos_db [bmw_ad location price])) = FiltersOk []"
    using bmw_specific [of location price]
    by (simp add: filters_route_def autos_no_curated generateDynamicFilters_def autos_category_found
        bmw_ad_def car_ads_selected same_location_no_facet same_price_no_facet)
  show "map facet_options (response_filters (filters_route ''autos'' False False
            (Some (autos_db [bmw_ad location price, toyota_ad location price]))))
       = [(''merk'', Some [''Bmw'', ''Toyota'']), (''brandstof'', Some [''Benzine'', ''Diesel'']),
          (''transmissie'', Some [''Automaat'', ''Handgeschakeld''])]"
    using bmw_toyota_specific [of location price location price]
    by (simp add: filters_route_def autos_no_curated generateDynamicFilters_def autos_category_found
        bmw_ad_def toyota_ad_def car_ads_selected same_location_no_facet same_price_no_facet
        response_filters_def)
qed

theorem single_car_ad_yields_no_facets_witness:
  "filters_route ''autos'' False False (Some (autos_db [bmw_ad ''Paramaribo'' (Some 1500000)])) = FiltersOk []
   \<and> map facet_options (response_filters (filters_route ''autos'' False False
            (Some (autos_db [bmw_ad ''Paramaribo'' (Some 1500000), toyota_ad ''Paramaribo'' (Some 1500000)]))))
       = [(''merk'', Some [''Bmw'', ''Toyota'']), (''brandstof'', Some [''Benzine'', ''Diesel'']),
          (''transmissie'', Some [''Automaat'', ''Handgeschakeld''])]"
  by (rule single_car_ad_yields_no_facets [of "''Paramaribo''" "Some 1500000"])

text \<open>
  Claim C7 as stated fails: for the single ad of the claim the response holds no facet at
  all.
\<close>

theorem single_car_ad_counterexample:
  "response_filters (filters_route ''autos'' False False
      (Some (autos_db [bmw_ad ''Paramaribo'' (Some 1500000)]))) = []"
  using bmw_specific [of "''Paramaribo''" "Some 1500000"]
  by (simp add: filters_route_def autos_no_curated generateDynamicFilters_def autos_category_found
      bmw_ad_def car_ads_selected same_location_no_facet same_price_no_facet response_filters_def)

end
